theory Spec2Isabelle
  imports Main
begin

section \<open>Shared helpers: JavaScript strings and jQuery class lists\<close>

text \<open>
  Optional object properties are \<open>string option\<close>: \<open>None\<close> is an absent
  (\<^verbatim>\<open>undefined\<close>) property. A property is truthy when it is present and not the empty
  string; string concatenation prints an absent property as \<^verbatim>\<open>undefined\<close>.
\<close>

definition truthy :: "string option \<Rightarrow> bool" where
  "truthy v = (case v of None \<Rightarrow> False | Some s \<Rightarrow> s \<noteq> [])"

definition js_str :: "string option \<Rightarrow> string" where
  "js_str v = (case v of None \<Rightarrow> ''undefined'' | Some s \<Rightarrow> s)"

text \<open>The white space at which a class argument is split (tab, line feed, vertical tab,
  form feed, carriage return, space).\<close>

definition is_space :: "char \<Rightarrow> bool" where
  "is_space c = (c = CHR '' '' \<or> c = CHR 0x09 \<or> c = CHR 0x0A \<or> c = CHR 0x0B
                 \<or> c = CHR 0x0C \<or> c = CHR 0x0D)"

text \<open>
  \<^verbatim>\<open>String.prototype.trim\<close> and \<^verbatim>\<open>String.prototype.toLowerCase\<close> belong to the language,
  not to the components: the functions that call them take them as the parameters
  \<open>trim\<close> and \<open>toLowerCase\<close>. The two definitions below are the built-ins on strings
  of code units below 256, for the concrete components further down: \<^verbatim>\<open>trim\<close> strips
  the six characters above and the no-break space, \<^verbatim>\<open>toLowerCase\<close> maps \<^verbatim>\<open>A\<close> to
  \<^verbatim>\<open>Z\<close> and the letters from U+00C0 to U+00DE (not the sign U+00D7) 32 places up.
\<close>

definition js_space :: "char \<Rightarrow> bool" where
  "js_space c = (is_space c \<or> c = CHR 0xA0)"

definition latin1_trim :: "string \<Rightarrow> string" where
  "latin1_trim s = rev (dropWhile js_space (rev (dropWhile js_space s)))"

definition lower_char :: "char \<Rightarrow> char" where
  "lower_char c =
     (let n = (of_char c :: nat)
      in if (65 \<le> n \<and> n \<le> 90) \<or> (192 \<le> n \<and> n \<le> 222 \<and> n \<noteq> 215)
         then char_of (n + 32) else c)"

definition latin1_toLowerCase :: "string \<Rightarrow> string" where
  "latin1_toLowerCase s = map lower_char s"

text \<open>A class attribute is a list of tokens; a class argument is split at white space.\<close>

function tokens :: "string \<Rightarrow> string list" where
  "tokens [] = []"
| "tokens (c # cs) =
     (if is_space c then tokens cs
      else (c # takeWhile (\<lambda>x. \<not> is_space x) cs)
             # tokens (dropWhile (\<lambda>x. \<not> is_space x) cs))"
  by pat_completeness auto
termination
  by (relation "measure length") (auto simp: length_dropWhile_le less_Suc_eq_le)

text \<open>jQuery \<^verbatim>\<open>addClass\<close>: every token not yet present is appended.\<close>

definition addClass :: "string list \<Rightarrow> string \<Rightarrow> string list" where
  "addClass cs v = foldl (\<lambda>acc t. if t \<in> set acc then acc else acc @ [t]) cs (tokens v)"

text \<open>jQuery \<^verbatim>\<open>removeClass\<close> with a string argument: every occurrence of each token
  goes; with the empty string nothing is removed.\<close>

definition removeClass :: "string list \<Rightarrow> string \<Rightarrow> string list" where
  "removeClass cs v = filter (\<lambda>c. c \<notin> set (tokens v)) cs"

section \<open>The auto-complete component\<close>

text \<open>A suggestion as the typeahead hands it to the template: \<^verbatim>\<open>{id, name}\<close>.\<close>

record datum =
  datum_id :: string
  datum_name :: string

text \<open>The options the modelled handlers read, before and after
  \<^verbatim>\<open>extend({}, defaults, this.options)\<close>.\<close>

record ac_user_options =
  u_value :: "datum option"
  u_valueName :: "string option"
  u_instanceName :: "string option"
  u_noNewValues :: "bool option"
  u_successClass :: "string option"
  u_failClass :: "string option"

record ac_options =
  opt_value :: "datum option"
  opt_valueName :: "string option"
  opt_instanceName :: string
  noNewValues :: bool
  successClass :: string
  failClass :: string

definition ac_extend :: "ac_user_options \<Rightarrow> ac_options" where
  "ac_extend u =
     \<lparr> opt_value = u_value u,
       opt_valueName = u_valueName u,
       opt_instanceName = (case u_instanceName u of None \<Rightarrow> ''undefined'' | Some n \<Rightarrow> n),
       noNewValues = (case u_noNewValues u of None \<Rightarrow> False | Some b \<Rightarrow> b),
       successClass =
         (case u_successClass u of None \<Rightarrow> ''husky-auto-complete-success'' | Some c \<Rightarrow> c),
       failClass =
         (case u_failClass u of None \<Rightarrow> ''husky-auto-complete-error'' | Some c \<Rightarrow> c) \<rparr>"

text \<open>The component: its fields, the value and \<^verbatim>\<open>data-id\<close> of \<^verbatim>\<open>$valueField\<close>, the
  classes of \<^verbatim>\<open>$el\<close>, and the names of the events emitted so far.\<close>

record autocomplete =
  ac_opts :: ac_options
  matched :: bool
  matches :: "datum list"
  field_value :: string
  field_data_id :: string
  el_classes :: "string list"
  ac_emitted :: "string list"

datatype error = TypeError | RangeError

definition getEvent :: "autocomplete \<Rightarrow> string \<Rightarrow> string" where
  "getEvent this suffix = ''husky.auto-complete.'' @ suffix"

definition getValueID :: "ac_options \<Rightarrow> string" where
  "getValueID opts = (case opt_value opts of Some v \<Rightarrow> datum_id v | None \<Rightarrow> ''null'')"

text \<open>Property lookup \<^verbatim>\<open>value[key]\<close> on a suggestion object.\<close>

definition datum_prop :: "datum \<Rightarrow> string \<Rightarrow> string option" where
  "datum_prop d k =
     (if k = ''id'' then Some (datum_id d)
      else if k = ''name'' then Some (datum_name d) else None)"

definition getValueName :: "ac_options \<Rightarrow> string" where
  "getValueName opts =
     (case opt_value opts of
        Some v \<Rightarrow> js_str (datum_prop v (js_str (opt_valueName opts)))
      | None \<Rightarrow> [])"

text \<open>\<^verbatim>\<open>initialize\<close>: the fields are reset, the options extended, the input rendered
  (\<^verbatim>\<open>render\<close> adds the class and creates the field), the handlers bound.\<close>

definition ac_initialize :: "ac_user_options \<Rightarrow> string list \<Rightarrow> autocomplete" where
  "ac_initialize u cls =
     (let opts = ac_extend u in
      \<lparr> ac_opts = opts,
        matched = True,
        matches = [],
        field_value = getValueName opts,
        field_data_id = getValueID opts,
        el_classes = addClass cls ''husky-auto-complete'',
        ac_emitted = [] \<rparr>)"

text \<open>The typeahead's \<^verbatim>\<open>template\<close> callback, run for each suggestion it shows.\<close>

definition on_template :: "datum \<Rightarrow> autocomplete \<Rightarrow> autocomplete" where
  "on_template context this = this\<lparr>matches := matches this @ [context], matched := True\<rparr>"

definition getClosestMatch :: "autocomplete \<Rightarrow> datum option" where
  "getClosestMatch this = (case matches this of [] \<Rightarrow> None | m # _ \<Rightarrow> Some m)"

definition getValueFieldValue :: "(string \<Rightarrow> string) \<Rightarrow> autocomplete \<Rightarrow> string" where
  "getValueFieldValue trim this = trim (field_value this)"

definition setValueFieldValue :: "string \<Rightarrow> autocomplete \<Rightarrow> autocomplete" where
  "setValueFieldValue v this = this\<lparr>field_value := v\<rparr>"

definition setValueFieldId :: "string \<Rightarrow> autocomplete \<Rightarrow> autocomplete" where
  "setValueFieldId i this = this\<lparr>field_data_id := i\<rparr>"

definition isMatched :: "autocomplete \<Rightarrow> bool" where
  "isMatched this = matched this"

text \<open>\<^verbatim>\<open>isMatchedExactly\<close>: the guard \<^verbatim>\<open>this.getClosestMatch !== null\<close> compares the
  method itself with null and is always true; the comparison then reads \<^verbatim>\<open>.name\<close> of
  what \<^verbatim>\<open>getClosestMatch()\<close> returns, a TypeError when that is null.\<close>

definition isMatchedExactly ::
  "(string \<Rightarrow> string) \<Rightarrow> (string \<Rightarrow> string) \<Rightarrow> autocomplete \<Rightarrow> error + bool" where
  "isMatchedExactly trim toLowerCase this =
     (if isMatched this then
        (case getClosestMatch this of
           None \<Rightarrow> Inl TypeError
         | Some m \<Rightarrow>
             Inr (toLowerCase (getValueFieldValue trim this) = toLowerCase (datum_name m)))
      else Inr False)"

definition setSuccessState :: "autocomplete \<Rightarrow> autocomplete" where
  "setSuccessState this =
     this\<lparr>el_classes := addClass (el_classes this) (successClass (ac_opts this))\<rparr>"

definition setFailState :: "autocomplete \<Rightarrow> autocomplete" where
  "setFailState this =
     this\<lparr>el_classes := addClass (el_classes this) (failClass (ac_opts this))\<rparr>"

definition setNoState :: "autocomplete \<Rightarrow> autocomplete" where
  "setNoState this =
     this\<lparr>el_classes :=
       removeClass (removeClass (el_classes this) (successClass (ac_opts this)))
         (failClass (ac_opts this))\<rparr>"

definition snap :: "datum \<Rightarrow> autocomplete \<Rightarrow> autocomplete" where
  "snap m this = setValueFieldId (datum_id m) (setValueFieldValue (datum_name m) this)"

definition handleBlur ::
  "(string \<Rightarrow> string) \<Rightarrow> (string \<Rightarrow> string) \<Rightarrow> autocomplete
     \<Rightarrow> error + autocomplete" where
  "handleBlur trim toLowerCase this =
     (if noNewValues (ac_opts this) then
        (if isMatched this \<and> getClosestMatch this \<noteq> None then
           (case getClosestMatch this of
              Some m \<Rightarrow> Inr (setSuccessState (snap m this))
            | None \<Rightarrow> Inl TypeError)
         else Inr (setFailState this))
      else
        (case isMatchedExactly trim toLowerCase this of
           Inl e \<Rightarrow> Inl e
         | Inr True \<Rightarrow>
             (case getClosestMatch this of
                Some m \<Rightarrow> Inr (snap m this)
              | None \<Rightarrow> Inl TypeError)
         | Inr False \<Rightarrow> Inr this))"

text \<open>The three handlers that \<^verbatim>\<open>setEvents\<close> binds to the field.\<close>

definition on_selected :: "datum \<Rightarrow> autocomplete \<Rightarrow> autocomplete" where
  "on_selected d this =
     setValueFieldId (datum_id d)
       (this\<lparr>ac_emitted := ac_emitted this @ [getEvent this ''select'']\<rparr>)"

definition on_keydown :: "autocomplete \<Rightarrow> autocomplete" where
  "on_keydown this = setNoState (this\<lparr>matched := False, matches := []\<rparr>)"

definition on_blur ::
  "(string \<Rightarrow> string) \<Rightarrow> (string \<Rightarrow> string) \<Rightarrow> autocomplete
     \<Rightarrow> error + autocomplete" where
  "on_blur trim toLowerCase this = handleBlur trim toLowerCase this"

section \<open>The edit-toolbar component\<close>

subsection \<open>Items\<close>

text \<open>
  A toolbar item as the data structure documents it, with the two properties the component
  adds (\<^verbatim>\<open>parentId\<close>, \<^verbatim>\<open>loading\<close>). A callback is named by a number; \<open>subitems\<close> is
  the \<^verbatim>\<open>items\<close> array of a dropdown, \<open>None\<close> when the property is absent. An id is
  the string it has as a property key and as a \<^verbatim>\<open>data-id\<close>; \<open>None\<close> stands for an id
  that is absent or falsy.
\<close>

record item_props =
  item_id :: "string option"
  title :: "string option"
  icon :: "string option"
  disabledIcon :: "string option"
  disabled :: bool
  iconSize :: "string option"
  item_class :: "string option"
  item_group :: "string option"
  item_type :: "string option"
  callback :: "nat option"
  divider :: bool
  parentId :: "string option"
  loading :: bool

datatype item = Item (props: item_props) (subitems: "item list option")

fun upd :: "(item_props \<Rightarrow> item_props) \<Rightarrow> item \<Rightarrow> item" where
  "upd f (Item p subs) = Item (f p) subs"

subsection \<open>The rendered list elements\<close>

text \<open>
  \<^verbatim>\<open>render\<close> and \<^verbatim>\<open>createDropdownMenu\<close> are the only code that builds the toolbar's
  markup, so the document is modelled in the shape they give it. An entry of a dropdown is
  \<^verbatim>\<open><li class="divider"></li>\<close> or \<^verbatim>\<open><li data-id=".."><a href="#">title</a></li>\<close>; a
  top-level entry is \<^verbatim>\<open><li class=".." data-id=".."><a><span/><span class="title"/></a></li>\<close>
  with the dropdown's \<^verbatim>\<open>ul\<close> after the link. \<open>loaders\<close> counts the
  \<^verbatim>\<open><span class="item-loader">\<close> elements appended to the entry, \<open>hidden\<close> is the state
  of its link. Ids, titles and classes are text: markup or quotes inside them are not
  modelled.
\<close>

datatype sub_li =
  Divider
| SubLi (sub_id: string) (sub_classes: "string list") (sub_text: string)
    (sub_hidden: bool) (sub_loaders: nat)

record li =
  data_id :: string
  li_classes :: "string list"
  link_classes :: "string list"
  link_hidden :: bool
  icon_classes :: "string list"
  title_html :: string
  loaders :: nat
  menu :: "sub_li list option"

subsection \<open>The component's state\<close>

record tb_user_options =
  u_url :: "string option"
  u_data :: "item list option option"
  u_tb_instanceName :: "string option"

record tb_options =
  url :: "string option"
  data :: "item list option"
  instanceName :: string

text \<open>\<^verbatim>\<open>extend(true, {}, defaults, this.options)\<close>: a property the caller left out takes
  its default; \<open>Some None\<close> is a \<^verbatim>\<open>data\<close> passed as null.\<close>

definition tb_extend :: "tb_user_options \<Rightarrow> tb_options" where
  "tb_extend u =
     \<lparr> url = u_url u,
       data = (case u_data u of None \<Rightarrow> Some [] | Some d \<Rightarrow> d),
       instanceName = (case u_tb_instanceName u of None \<Rightarrow> [] | Some n \<Rightarrow> n) \<rparr>"

text \<open>What the component does to the world outside its own elements, in order.\<close>

datatype effect =
  Emit string "item option"
| Invoke nat
| Log string "string option"
| StartLoader string

text \<open>
  \<open>items\<close> holds the items stored in \<^verbatim>\<open>this.items\<close>, keyed by the property key of
  the id. \<^verbatim>\<open>this.items\<close> is an array: \<open>items_length\<close> is its \<^verbatim>\<open>length\<close>, and
  \<open>inherited\<close> tells under which names an array inherits a truthy value (\<^verbatim>\<open>push\<close>,
  \<^verbatim>\<open>constructor\<close>, ...), which depends on the language version and is a parameter
  carried in the state. Items are values: the data has no object twice (\<^verbatim>\<open>initialize\<close>
  copies the options deeply, a fetch parses them). A stored dropdown holds its sub-items
  as \<^verbatim>\<open>render\<close> left them; the component reads no more of them than how many there are,
  and a later change of a flag is recorded in the sub-item's own entry of \<open>items\<close>.
  \<open>uid\<close> counts the calls of \<^verbatim>\<open>sandbox.util.uniqueId\<close> so far. \<open>skeletons\<close> are the
  skeletons appended to the component's element, each with its left and its right list.

  Before the first \<^verbatim>\<open>render\<close> there is no array, and the state has no items; what an
  array inherits is read by \<^verbatim>\<open>checkItemId\<close>, which \<^verbatim>\<open>render\<close> calls when it has made the
  array. The handlers look an id up among the stored items only: under any other id they
  take \<^verbatim>\<open>this.items[id]\<close> to be \<^verbatim>\<open>undefined\<close>, as it is when there is no array yet and
  for every name the array does not have.
\<close>

record toolbar =
  options :: tb_options
  items :: "string \<rightharpoonup> item"
  items_length :: nat
  inherited :: "string \<Rightarrow> bool"
  uid :: nat
  skeletons :: "(li list \<times> li list) list"
  trace :: "effect list"
  dom_events_bound :: bool
  custom_events_bound :: bool

text \<open>The entries of all lists \<^verbatim>\<open>.edit-toolbar-left\<close>, and of all lists
  \<^verbatim>\<open>.edit-toolbar-right\<close>, in document order.\<close>

definition left_ul :: "toolbar \<Rightarrow> li list" where
  "left_ul this = concat (map fst (skeletons this))"

definition right_ul :: "toolbar \<Rightarrow> li list" where
  "right_ul this = concat (map snd (skeletons this))"

subsection \<open>Event names\<close>

definition createEventName :: "toolbar \<Rightarrow> string \<Rightarrow> string" where
  "createEventName this postFix =
     ''husky.edit-toolbar.''
       @ (if instanceName (options this) \<noteq> [] then instanceName (options this) @ ''.'' else [])
       @ postFix"

definition INITIALIZED :: "toolbar \<Rightarrow> string" where
  "INITIALIZED this = createEventName this ''initialized''"

definition ITEM_ENABLE :: "toolbar \<Rightarrow> string" where
  "ITEM_ENABLE this = createEventName this ''item.enable''"

definition ITEM_DISABLE :: "toolbar \<Rightarrow> string" where
  "ITEM_DISABLE this = createEventName this ''item.disable''"

definition ITEM_LOADING :: "toolbar \<Rightarrow> string" where
  "ITEM_LOADING this = createEventName this ''item.loading''"

text \<open>The postfixes the component builds event names from: the four above and
  \<^verbatim>\<open>item.select\<close>, which \<^verbatim>\<open>triggerSelectEvent\<close> emits.\<close>

definition tb_postfixes :: "string list" where
  "tb_postfixes =
     [''initialized'', ''item.enable'', ''item.disable'', ''item.loading'', ''item.select'']"

definition emitEvent :: "string \<Rightarrow> item option \<Rightarrow> toolbar \<Rightarrow> toolbar" where
  "emitEvent postFix payload this =
     this\<lparr>trace := trace this @ [Emit (createEventName this postFix) payload]\<rparr>"

subsection \<open>Icon classes\<close>

definition createIconClass :: "item \<Rightarrow> bool \<Rightarrow> string" where
  "createIconClass item enabled =
     ''icon-'' @ js_str (if enabled then icon (props item)
                        else if truthy (disabledIcon (props item))
                             then disabledIcon (props item) else icon (props item))"

fun join_sp :: "string list \<Rightarrow> string" where
  "join_sp [] = []"
| "join_sp [x] = x"
| "join_sp (x # y # ys) = x @ '' '' @ join_sp (y # ys)"

definition createIconSupportClass :: "item \<Rightarrow> bool \<Rightarrow> string" where
  "createIconSupportClass item enabled =
     (if truthy (icon (props item)) then
        join_sp ([createIconClass item enabled, ''icon'']
                 @ (if truthy (iconSize (props item)) then [js_str (iconSize (props item))]
                    else []))
      else [])"

subsection \<open>Ids\<close>

text \<open>
  A property key is an array index when it is the decimal numeral, without leading zeros,
  of a number below \<open>2^32 - 1\<close>; storing under an index makes the array at least that
  long.
\<close>

definition digit_of :: "char \<Rightarrow> nat option" where
  "digit_of c =
     (let n = (of_char c :: nat) in if 48 \<le> n \<and> n \<le> 57 then Some (n - 48) else None)"

fun decimal :: "string \<Rightarrow> nat \<Rightarrow> nat option" where
  "decimal [] acc = Some acc"
| "decimal (c # cs) acc =
     (case digit_of c of None \<Rightarrow> None | Some d \<Rightarrow> decimal cs (10 * acc + d))"

definition array_index :: "string \<Rightarrow> nat option" where
  "array_index k =
     (case k of
        [] \<Rightarrow> None
      | c # cs \<Rightarrow>
          if c = CHR ''0'' \<and> cs \<noteq> [] then None
          else (case decimal k 0 of
                  None \<Rightarrow> None
                | Some n \<Rightarrow> if n < 4294967295 then Some n else None))"

text \<open>\<^verbatim>\<open>!!this.items[k]\<close>: the array's own \<^verbatim>\<open>length\<close> is truthy when it is not 0; any
  other key is truthy when an item is stored under it or the array inherits a truthy
  value under it.\<close>

definition has_item :: "toolbar \<Rightarrow> string \<Rightarrow> bool" where
  "has_item this k =
     (if k = ''length'' then 0 < items_length this
      else items this k \<noteq> None \<or> inherited this k)"

text \<open>
  \<^verbatim>\<open>sandbox.util.uniqueId\<close> is not part of the component: it is the parameter \<open>gen\<close>,
  whose \<open>n\<close>-th call returns \<open>gen n\<close>. The loop
  \<^verbatim>\<open>do { item.id = uniqueId(); } while (!!this.items[item.id]);\<close> need not end, so its
  result is an option: the id it settles on and the number of calls made by then.
\<close>

partial_function (option) uniqueId_loop ::
  "(nat \<Rightarrow> string) \<Rightarrow> (string \<Rightarrow> bool) \<Rightarrow> nat \<Rightarrow> (string \<times> nat) option" where
  "uniqueId_loop gen taken c =
     (if taken (gen c) then uniqueId_loop gen taken (Suc c) else Some (gen c, Suc c))"

declare uniqueId_loop.simps [code]

text \<open>\<^verbatim>\<open>checkItemId\<close>. The second statement, \<^verbatim>\<open>if (!item.disabled) item.disabled = false\<close>,
  does not change a boolean flag.\<close>

definition checkItemId ::
  "(nat \<Rightarrow> string) \<Rightarrow> toolbar \<Rightarrow> item \<Rightarrow> (toolbar \<times> item) option" where
  "checkItemId gen this item =
     (if \<not> truthy (item_id (props item)) \<or> has_item this (js_str (item_id (props item)))
      then
        (case uniqueId_loop gen (has_item this) (uid this) of
           None \<Rightarrow> None
         | Some (i, c) \<Rightarrow> Some (this\<lparr>uid := c\<rparr>, upd (\<lambda>p. p\<lparr>item_id := Some i\<rparr>) item))
      else Some (this, item))"

text \<open>\<^verbatim>\<open>this.items[item.id] = item\<close>. Assigning an object to the \<^verbatim>\<open>length\<close> of an array
  raises a RangeError; under an array index the assignment lengthens the array.\<close>

definition store :: "item \<Rightarrow> toolbar \<Rightarrow> error + toolbar" where
  "store item this =
     (let k = js_str (item_id (props item))
      in if k = ''length'' then Inl RangeError
         else Inr (this\<lparr>items := (items this)(k \<mapsto> item),
                       items_length :=
                         (case array_index k of
                            None \<Rightarrow> items_length this
                          | Some n \<Rightarrow> max (items_length this) (Suc n))\<rparr>))"

subsection \<open>Rendering\<close>

text \<open>
  A function that can raise returns \<open>Inl\<close> of the error or \<open>Inr\<close> of its result, and
  one that calls \<^verbatim>\<open>checkItemId\<close> returns an option of that, \<open>None\<close> when the loop for the
  id does not end.

  One round of the loop of \<^verbatim>\<open>createDropdownMenu\<close>. \<open>classString\<close> is the variable of
  that name, held as the class list its attribute text gives the entry; it is set for a
  disabled item and never reset. The last component collects the sub-items as the round
  leaves them: the loop changes the objects of \<^verbatim>\<open>parent.items\<close> in place.
\<close>

type_synonym dropdown_state = "toolbar \<times> string list \<times> sub_li list \<times> item list"

definition dropdown_step ::
  "(nat \<Rightarrow> string) \<Rightarrow> item \<Rightarrow> dropdown_state \<Rightarrow> item \<Rightarrow> (error + dropdown_state) option" where
  "dropdown_step gen parent st item =
     (case st of (this, classString, list, subs) \<Rightarrow>
        if divider (props item)
        then Some (Inr (this, classString, list @ [Divider], subs @ [item]))
        else
          (case checkItemId gen this
                  (upd (\<lambda>p. p\<lparr>parentId := item_id (props parent)\<rparr>) item) of
             None \<Rightarrow> None
           | Some (this1, item1) \<Rightarrow>
               (case store item1 this1 of
                  Inl e \<Rightarrow> Some (Inl e)
                | Inr this2 \<Rightarrow>
                    let classString1 =
                          (if disabled (props item1) then [''disabled''] else classString)
                    in Some (Inr (this2, classString1,
                                  list @ [SubLi (js_str (item_id (props item1))) classString1
                                            (js_str (title (props item1))) False 0],
                                  subs @ [item1])))))"

fun dropdown_loop ::
  "(nat \<Rightarrow> string) \<Rightarrow> item \<Rightarrow> dropdown_state \<Rightarrow> item list \<Rightarrow> (error + dropdown_state) option"
  where
  "dropdown_loop gen parent st [] = Some (Inr st)"
| "dropdown_loop gen parent st (item # rest) =
     (case dropdown_step gen parent st item of
        None \<Rightarrow> None
      | Some (Inl e) \<Rightarrow> Some (Inl e)
      | Some (Inr st1) \<Rightarrow> dropdown_loop gen parent st1 rest)"

text \<open>\<^verbatim>\<open>createDropdownMenu\<close> returns the component, the entries of the new list and the
  sub-items as it leaves them.\<close>

definition createDropdownMenu ::
  "(nat \<Rightarrow> string) \<Rightarrow> toolbar \<Rightarrow> item \<Rightarrow> (error + toolbar \<times> sub_li list \<times> item list) option"
  where
  "createDropdownMenu gen this parent =
     (case dropdown_loop gen parent (this, [], [], [])
             (case subitems parent of None \<Rightarrow> [] | Some subs \<Rightarrow> subs) of
        None \<Rightarrow> None
      | Some (Inl e) \<Rightarrow> Some (Inl e)
      | Some (Inr (this1, classString, list, subs)) \<Rightarrow> Some (Inr (this1, list, subs)))"

text \<open>\<^verbatim>\<open>append(addTo, $listItem)\<close>: \<^verbatim>\<open>addTo\<close> is what \<^verbatim>\<open>find\<close> gave for the left or the
  right list, one list for each skeleton of the element, and each gets the entry.\<close>

definition append_li :: "bool \<Rightarrow> li \<Rightarrow> toolbar \<Rightarrow> toolbar" where
  "append_li to_right l this =
     this\<lparr>skeletons :=
       map (\<lambda>sk. if to_right then (fst sk, snd sk @ [l]) else (fst sk @ [l], snd sk))
         (skeletons this)\<rparr>"

text \<open>The body of the loop of \<^verbatim>\<open>render\<close>. The item stored before
  \<^verbatim>\<open>createDropdownMenu\<close> runs is the object whose sub-items that call changes, so the
  stored item has them as the call leaves them.\<close>

definition render_item :: "(nat \<Rightarrow> string) \<Rightarrow> toolbar \<Rightarrow> item \<Rightarrow> (error + toolbar) option" where
  "render_item gen this item0 =
     (case checkItemId gen this item0 of
        None \<Rightarrow> None
      | Some (this1, item) \<Rightarrow>
          (case store item this1 of
             Inl e \<Rightarrow> Some (Inl e)
           | Inr this2 \<Rightarrow>
               let classArray =
                     [''edit-toolbar-item'']
                     @ (if truthy (item_class (props item))
                        then [js_str (item_class (props item))] else [])
                     @ (if disabled (props item) then [''disabled''] else []);
                   to_right =
                     (truthy (item_group (props item))
                      \<and> item_group (props item) = Some ''right'');
                   listItem =
                     \<lparr> data_id = js_str (item_id (props item)),
                       li_classes = tokens (join_sp classArray),
                       link_classes = [],
                       link_hidden = False,
                       icon_classes =
                         tokens (createIconSupportClass item (\<not> disabled (props item))),
                       title_html =
                         (if truthy (title (props item)) then js_str (title (props item))
                          else []),
                       loaders = 0,
                       menu = None \<rparr>
               in (case subitems item of
                     None \<Rightarrow> Some (Inr (append_li to_right listItem this2))
                   | Some subs0 \<Rightarrow>
                       (case createDropdownMenu gen this2 item of
                          None \<Rightarrow> None
                        | Some (Inl e) \<Rightarrow> Some (Inl e)
                        | Some (Inr (this3, list, subs)) \<Rightarrow>
                            Some (Inr
                              (append_li to_right
                                 (listItem\<lparr>link_classes := addClass [] ''dropdown-toggle'',
                                           menu := Some list\<rparr>)
                                 (this3\<lparr>items :=
                                    (items this3)(js_str (item_id (props item))
                                       \<mapsto> Item (props item) (Some subs))\<rparr>)))))))"

fun render_loop :: "(nat \<Rightarrow> string) \<Rightarrow> toolbar \<Rightarrow> item list \<Rightarrow> (error + toolbar) option" where
  "render_loop gen this [] = Some (Inr this)"
| "render_loop gen this (item # rest) =
     (case render_item gen this item of
        None \<Rightarrow> None
      | Some (Inl e) \<Rightarrow> Some (Inl e)
      | Some (Inr this1) \<Rightarrow> render_loop gen this1 rest)"

text \<open>\<^verbatim>\<open>render\<close>: one more skeleton with its two empty lists, \<^verbatim>\<open>this.items = []\<close>, the
  loop over the data, and the \<^verbatim>\<open>initialized\<close> event.\<close>

definition render :: "(nat \<Rightarrow> string) \<Rightarrow> toolbar \<Rightarrow> item list \<Rightarrow> (error + toolbar) option" where
  "render gen this d =
     (case render_loop gen
             (this\<lparr>items := Map.empty, items_length := 0,
                   skeletons := skeletons this @ [([], [])]\<rparr>) d of
        None \<Rightarrow> None
      | Some (Inl e) \<Rightarrow> Some (Inl e)
      | Some (Inr this1) \<Rightarrow>
          Some (Inr (this1\<lparr>trace := trace this1 @ [Emit (INITIALIZED this1) None]\<rparr>)))"

subsection \<open>Initialisation and the data fetch\<close>

text \<open>
  \<^verbatim>\<open>initialize\<close> up to its return; an error of \<^verbatim>\<open>render\<close> leaves it before the events
  are bound. With a url the two callbacks are only registered here; \<open>load_settled\<close> is
  what runs when the fetch is over: \<^verbatim>\<open>render\<close> on success, the logging callback on
  failure.
\<close>

definition initialize ::
  "(nat \<Rightarrow> string) \<Rightarrow> tb_user_options \<Rightarrow> toolbar \<Rightarrow> (error + toolbar) option" where
  "initialize gen u this0 =
     (let this = this0\<lparr>options := tb_extend u\<rparr>
      in case (if truthy (url (options this)) then Some (Inr this)
               else
                 (case data (options this) of
                    Some d \<Rightarrow> render gen this d
                  | None \<Rightarrow>
                      Some (Inr (this\<lparr>trace := trace this
                                          @ [Log ''no data provided for tabs!'' None]\<rparr>)))) of
           None \<Rightarrow> None
         | Some (Inl e) \<Rightarrow> Some (Inl e)
         | Some (Inr t) \<Rightarrow>
             Some (Inr (t\<lparr>dom_events_bound := True, custom_events_bound := True\<rparr>)))"

datatype fetch = Loaded "item list" | Failed string

definition load_settled ::
  "(nat \<Rightarrow> string) \<Rightarrow> fetch \<Rightarrow> toolbar \<Rightarrow> (error + toolbar) option" where
  "load_settled gen r this =
     (case r of
        Loaded d \<Rightarrow> render gen this d
      | Failed e \<Rightarrow>
          Some (Inr (this\<lparr>trace := trace this
                              @ [Log ''data could not be loaded:'' (Some e)]\<rparr>)))"

subsection \<open>Finding elements\<close>

text \<open>
  \<^verbatim>\<open>find('[data-id="' + id + '"]', this.$el)\<close> gives every entry, top-level or in a
  dropdown, whose \<^verbatim>\<open>data-id\<close> is the id; \<open>on_item i f g\<close> applies \<open>f\<close> to the top-level
  ones and \<open>g\<close> to those in a dropdown.
\<close>

fun sub_apply :: "string \<Rightarrow> (sub_li \<Rightarrow> sub_li) \<Rightarrow> sub_li \<Rightarrow> sub_li" where
  "sub_apply i g Divider = Divider"
| "sub_apply i g (SubLi j cs t h n) = (if j = i then g (SubLi j cs t h n) else SubLi j cs t h n)"

fun sub_has_id :: "string \<Rightarrow> sub_li \<Rightarrow> bool" where
  "sub_has_id i Divider = False"
| "sub_has_id i (SubLi j cs t hid n) = (j = i)"

definition each_li :: "string \<Rightarrow> (li \<Rightarrow> li) \<Rightarrow> (sub_li \<Rightarrow> sub_li) \<Rightarrow> li \<Rightarrow> li" where
  "each_li i f g l =
     (let l1 = l\<lparr>menu := map_option (map (sub_apply i g)) (menu l)\<rparr>
      in if data_id l1 = i then f l1 else l1)"

definition on_item ::
  "string \<Rightarrow> (li \<Rightarrow> li) \<Rightarrow> (sub_li \<Rightarrow> sub_li) \<Rightarrow> toolbar \<Rightarrow> toolbar" where
  "on_item i f g this =
     this\<lparr>skeletons :=
       map (map_prod (map (each_li i f g)) (map (each_li i f g))) (skeletons this)\<rparr>"

fun sub_map_classes :: "(string list \<Rightarrow> string list) \<Rightarrow> sub_li \<Rightarrow> sub_li" where
  "sub_map_classes h Divider = Divider"
| "sub_map_classes h (SubLi j cs t hid n) = SubLi j (h cs) t hid n"

fun sub_set_hidden :: "bool \<Rightarrow> sub_li \<Rightarrow> sub_li" where
  "sub_set_hidden b Divider = Divider"
| "sub_set_hidden b (SubLi j cs t hid n) = SubLi j cs t b n"

fun sub_map_loaders :: "(nat \<Rightarrow> nat) \<Rightarrow> sub_li \<Rightarrow> sub_li" where
  "sub_map_loaders h Divider = Divider"
| "sub_map_loaders h (SubLi j cs t hid n) = SubLi j cs t hid (h n)"

text \<open>\<^verbatim>\<open>find('a', $item)\<close> is the entry's own link and, for a top-level entry, the links
  of its dropdown; \<^verbatim>\<open>find('.item-loader', $item)\<close> likewise.\<close>

definition li_set_hidden :: "bool \<Rightarrow> li \<Rightarrow> li" where
  "li_set_hidden b l =
     l\<lparr>link_hidden := b, menu := map_option (map (sub_set_hidden b)) (menu l)\<rparr>"

definition li_remove_loaders :: "li \<Rightarrow> li" where
  "li_remove_loaders l =
     l\<lparr>loaders := 0, menu := map_option (map (sub_map_loaders (\<lambda>n. 0))) (menu l)\<rparr>"

text \<open>\<^verbatim>\<open>find('[data-id="' + id + '"] .icon', this.$el)\<close>: the only element of an entry
  that can carry the class \<^verbatim>\<open>icon\<close> is the first span of a top-level entry.\<close>

definition on_icon :: "(string list \<Rightarrow> string list) \<Rightarrow> li \<Rightarrow> li" where
  "on_icon h l = (if ''icon'' \<in> set (icon_classes l) then l\<lparr>icon_classes := h (icon_classes l)\<rparr> else l)"

text \<open>Modelled from the spec: \<^verbatim>\<open>sandbox.dom.prependClass\<close> is not among the adapter
  functions under src/. The spec has the adapter wrap class toggling and the toolbar swap
  an item's icon; the class is put in front of the element's class attribute.\<close>

definition prependClass :: "string list \<Rightarrow> string \<Rightarrow> string list" where
  "prependClass cs v = tokens v @ cs"

subsection \<open>Enabling, disabling, loading\<close>

text \<open>The statements of \<^verbatim>\<open>toggleEnabled\<close> and \<^verbatim>\<open>itemLoading\<close> that change elements, each
  as what it does to a top-level entry and to a dropdown entry it reaches.\<close>

text \<open>\<^verbatim>\<open>remove(find('.item-loader', $item)); show($itemLink)\<close>\<close>

definition restore_li :: "li \<Rightarrow> li" where
  "restore_li l = li_set_hidden False (li_remove_loaders l)"

definition restore_sub :: "sub_li \<Rightarrow> sub_li" where
  "restore_sub e = sub_set_hidden False (sub_map_loaders (\<lambda>n. 0) e)"

text \<open>\<^verbatim>\<open>addClass($item, 'highlight-animation')\<close>\<close>

definition highlight_li :: "li \<Rightarrow> li" where
  "highlight_li l = l\<lparr>li_classes := addClass (li_classes l) ''highlight-animation''\<rparr>"

definition highlight_sub :: "sub_li \<Rightarrow> sub_li" where
  "highlight_sub e = sub_map_classes (\<lambda>cs. addClass cs ''highlight-animation'') e"

text \<open>The three statements of the branch \<^verbatim>\<open>if (!!enabled)\<close>\<close>

definition enable_li :: "string \<Rightarrow> string \<Rightarrow> li \<Rightarrow> li" where
  "enable_li enabledIconClass disabledIconClass l =
     on_icon (\<lambda>cs. prependClass (removeClass cs disabledIconClass) enabledIconClass)
       (l\<lparr>li_classes := removeClass (li_classes l) ''disabled''\<rparr>)"

definition enable_sub :: "sub_li \<Rightarrow> sub_li" where
  "enable_sub e = sub_map_classes (\<lambda>cs. removeClass cs ''disabled'') e"

text \<open>and of its \<^verbatim>\<open>else\<close>\<close>

definition disable_li :: "string \<Rightarrow> string \<Rightarrow> li \<Rightarrow> li" where
  "disable_li enabledIconClass disabledIconClass l =
     on_icon (\<lambda>cs. prependClass (removeClass cs enabledIconClass) disabledIconClass)
       (l\<lparr>li_classes := addClass (li_classes l) ''disabled''\<rparr>)"

definition disable_sub :: "sub_li \<Rightarrow> sub_li" where
  "disable_sub e = sub_map_classes (\<lambda>cs. addClass cs ''disabled'') e"

text \<open>\<^verbatim>\<open>toggleEnabled\<close>. \<^verbatim>\<open>this.items[id]\<close> is the item stored under the id; where
  none is stored it is taken to be \<^verbatim>\<open>undefined\<close>, whose properties cannot be read. The
  handler bound for \<^verbatim>\<open>animationend\<close> only takes the highlight class off again when the
  animation is over; it is not part of the call.\<close>

definition toggleEnabled :: "bool \<Rightarrow> string \<Rightarrow> bool option \<Rightarrow> toolbar \<Rightarrow> error + toolbar" where
  "toggleEnabled enabled i highlight this =
     (case items this i of
        None \<Rightarrow> Inl TypeError
      | Some item \<Rightarrow>
          let enabledIconClass = createIconClass item True;
              disabledIconClass = createIconClass item False;
              item1 = upd (\<lambda>p. p\<lparr>disabled := \<not> enabled\<rparr>) item;
              this1 =
                (if loading (props item1) then
                   on_item i restore_li restore_sub
                     (this\<lparr>items := (items this)(i \<mapsto> upd (\<lambda>p. p\<lparr>loading := False\<rparr>) item1)\<rparr>)
                 else this\<lparr>items := (items this)(i \<mapsto> item1)\<rparr>);
              this2 =
                (if highlight \<noteq> Some False then on_item i highlight_li highlight_sub this1
                 else this1)
          in Inr
               (if enabled then
                  on_item i (enable_li enabledIconClass disabledIconClass) enable_sub this2
                else
                  on_item i (disable_li enabledIconClass disabledIconClass) disable_sub this2))"

text \<open>\<^verbatim>\<open>hide($itemLink); append($item, $loader)\<close>\<close>

definition loading_li :: "li \<Rightarrow> li" where
  "loading_li l = (li_set_hidden True l)\<lparr>loaders := Suc (loaders l)\<rparr>"

definition loading_sub :: "sub_li \<Rightarrow> sub_li" where
  "loading_sub e = sub_map_loaders Suc (sub_set_hidden True e)"

definition itemLoading :: "string \<Rightarrow> toolbar \<Rightarrow> error + toolbar" where
  "itemLoading i this =
     (case items this i of
        None \<Rightarrow> Inl TypeError
      | Some item \<Rightarrow>
          if loading (props item) then Inr this
          else
            let this1 = this\<lparr>items := (items this)(i \<mapsto> upd (\<lambda>p. p\<lparr>loading := True\<rparr>) item)\<rparr>;
                this2 = on_item i loading_li loading_sub this1
            in Inr (this2\<lparr>trace := trace this2 @ [StartLoader i]\<rparr>))"

subsection \<open>Selecting\<close>

text \<open>
  A click, as the handler reads it from \<^verbatim>\<open>event.currentTarget\<close> through two wrappers
  that are not under src/: \<open>target_id\<close> is the property key of what
  \<^verbatim>\<open>sandbox.dom.data(event.currentTarget, 'id')\<close> returns, and \<open>dom_parent\<close> is the
  element of \<^verbatim>\<open>sandbox.dom.parents(event.currentTarget, 'li').eq(0)\<close>, if there is one:
  the top-level entry above the clicked entry, given by its place, which is the number
  of its skeleton, whether it is in the right list, and its position in the list. What
  is outside the component's element is not part of the model.
\<close>

type_synonym place = "nat \<times> bool \<times> nat"

record click =
  target_id :: string
  dom_parent :: "place option"

definition li_at :: "place \<Rightarrow> toolbar \<Rightarrow> li option" where
  "li_at p this =
     (case p of (k, right, j) \<Rightarrow>
        if k < length (skeletons this) then
          (let ul = (if right then snd (skeletons this ! k) else fst (skeletons this ! k))
           in if j < length ul then Some (ul ! j) else None)
        else None)"

definition on_li_at :: "place \<Rightarrow> (li \<Rightarrow> li) \<Rightarrow> toolbar \<Rightarrow> toolbar" where
  "on_li_at p f this =
     (case li_at p this of
        None \<Rightarrow> this
      | Some l \<Rightarrow>
          (case p of (k, right, j) \<Rightarrow>
             this\<lparr>skeletons :=
               (skeletons this)
                 [k := (if right
                        then (fst (skeletons this ! k), (snd (skeletons this ! k))[j := f l])
                        else ((fst (skeletons this ! k))[j := f l], snd (skeletons this ! k)))]\<rparr>))"

text \<open>\<^verbatim>\<open>changeMainListItem\<close>: \<^verbatim>\<open>listItems.eq(0)\<close> is the icon span and
  \<^verbatim>\<open>listItems.eq(1)\<close> the title span. Inside \<^verbatim>\<open>if (!!item.icon)\<close> the test
  \<^verbatim>\<open>item.icon !== false\<close> holds, and \<^verbatim>\<open>removeClass\<close> is called with the empty
  string.\<close>

definition change_spans :: "item \<Rightarrow> li \<Rightarrow> li" where
  "change_spans item l =
     (let l1 =
            (if truthy (icon (props item)) then
               l\<lparr>icon_classes :=
                   addClass (removeClass (icon_classes l) [])
                     (createIconSupportClass item (\<not> disabled (props item)))\<rparr>
             else l)
      in if truthy (title (props item)) then l1\<lparr>title_html := js_str (title (props item))\<rparr>
         else l1)"

definition changeMainListItem :: "place option \<Rightarrow> item \<Rightarrow> toolbar \<Rightarrow> toolbar" where
  "changeMainListItem listElement item this =
     (case listElement of
        None \<Rightarrow> this
      | Some p \<Rightarrow> on_li_at p (change_spans item) this)"

text \<open>\<^verbatim>\<open>triggerSelectEvent\<close>. \<^verbatim>\<open>this.items[item.parentId]\<close> is the item stored under
  that id; where none is stored it is taken to be \<^verbatim>\<open>undefined\<close>, whose \<^verbatim>\<open>type\<close> cannot be
  read.\<close>

definition triggerSelectEvent :: "item \<Rightarrow> place option \<Rightarrow> toolbar \<Rightarrow> error + toolbar" where
  "triggerSelectEvent item parent this =
     (let finish = (\<lambda>t. case callback (props item) of
                           Some cb \<Rightarrow> t\<lparr>trace := trace t @ [Invoke cb]\<rparr>
                         | None \<Rightarrow> emitEvent ''item.select'' (Some item) t)
      in if truthy (parentId (props item)) then
           (case items this (js_str (parentId (props item))) of
              None \<Rightarrow> Inl TypeError
            | Some parentItem \<Rightarrow>
                Inr (finish
                       (if truthy (item_type (props parentItem))
                           \<and> item_type (props parentItem) = Some ''select''
                        then changeMainListItem parent item this else this)))
         else Inr (finish this))"

text \<open>\<^verbatim>\<open>selectItem\<close>, the handler of a click on an entry. \<^verbatim>\<open>this.items[...]\<close> is the
  item stored under the key; where none is stored it is taken to be \<^verbatim>\<open>undefined\<close>.\<close>

definition selectItem :: "click \<Rightarrow> toolbar \<Rightarrow> error + toolbar" where
  "selectItem event this =
     (case items this (target_id event) of
        None \<Rightarrow> Inl TypeError
      | Some item \<Rightarrow>
          if (case subitems item of None \<Rightarrow> False | Some subs \<Rightarrow> length subs > 0)
             \<or> loading (props item)
          then Inr this
          else if \<not> disabled (props item) then triggerSelectEvent item (dom_parent event) this
          else Inr this)"

subsection \<open>The listeners of \<^verbatim>\<open>bindCustomEvents\<close>\<close>

definition deliver ::
  "string \<Rightarrow> string \<Rightarrow> (toolbar \<Rightarrow> error + toolbar) \<Rightarrow> error + toolbar \<Rightarrow> error + toolbar" where
  "deliver name bound handler r =
     (case r of Inl e \<Rightarrow> Inl e | Inr this \<Rightarrow> if name = bound then handler this else Inr this)"

text \<open>What emitting \<open>name\<close> with the arguments \<open>(i, highlight)\<close> on the sandbox does to
  the component: each of its three listeners runs when its event name is the emitted one.\<close>

definition sandbox_emit :: "string \<Rightarrow> string \<Rightarrow> bool option \<Rightarrow> toolbar \<Rightarrow> error + toolbar" where
  "sandbox_emit name i highlight this =
     (if custom_events_bound this then
        deliver name (ITEM_LOADING this) (itemLoading i)
          (deliver name (ITEM_ENABLE this) (toggleEnabled True i highlight)
             (deliver name (ITEM_DISABLE this) (toggleEnabled False i highlight) (Inr this)))
      else Inr this)"

subsection \<open>Reading the document\<close>

text \<open>The top-level entries and the dropdown entries that carry a given \<^verbatim>\<open>data-id\<close>, in
  document order.\<close>

definition menu_list :: "li \<Rightarrow> sub_li list" where
  "menu_list l = (case menu l of None \<Rightarrow> [] | Some m \<Rightarrow> m)"

definition entries :: "toolbar \<Rightarrow> li list" where
  "entries this = concat (map (\<lambda>sk. fst sk @ snd sk) (skeletons this))"




text \<open>A property of every top-level entry with a given \<^verbatim>\<open>data-id\<close> and of every
  dropdown entry with it, in a list of top-level entries.\<close>

definition doc_all :: "string \<Rightarrow> (li \<Rightarrow> bool) \<Rightarrow> (sub_li \<Rightarrow> bool) \<Rightarrow> li list \<Rightarrow> bool" where
  "doc_all i A B ls =
     list_all (\<lambda>l. (data_id l = i \<longrightarrow> A l)
                   \<and> list_all (\<lambda>e. sub_has_id i e \<longrightarrow> B e) (menu_list l)) ls"



text \<open>How many items a data list asks \<^verbatim>\<open>render\<close> to store: every top-level item and
  every entry of a dropdown that is not a divider.\<close>

definition stored_count :: "item list \<Rightarrow> nat" where
  "stored_count d =
     sum_list (map (\<lambda>item. Suc (case subitems item of
                                   None \<Rightarrow> 0
                                 | Some subs \<Rightarrow> length (filter (\<lambda>s. \<not> divider (props s)) subs)))
                 d)"

text \<open>The ids a data list asks for: those of its top-level items and of the entries of
  its dropdowns that are not dividers.\<close>

definition asked_ids :: "item list \<Rightarrow> string option list" where
  "asked_ids d =
     concat (map (\<lambda>item. item_id (props item)
                    # (case subitems item of
                         None \<Rightarrow> []
                       | Some subs \<Rightarrow>
                           map (\<lambda>s. item_id (props s)) (filter (\<lambda>s. \<not> divider (props s)) subs)))
               d)"

text \<open>The invariant of \<^verbatim>\<open>this.items\<close> while rendering: finitely many keys, each item
  stored under its own id, none under \<^verbatim>\<open>length\<close>, and finitely many inherited names.\<close>

definition keyed :: "toolbar \<Rightarrow> bool" where
  "keyed this =
     (finite (dom (items this)) \<and> finite {k. inherited this k}
      \<and> items this ''length'' = None
      \<and> (\<forall>k item. items this k = Some item \<longrightarrow> item_id (props item) = Some k))"

section \<open>Concrete components\<close>

text \<open>An auto-complete created with no options at all, one in which the user has typed
  \<^verbatim>\<open>A\<close> and been shown the suggestion \<^verbatim>\<open>a\<close>, and one in which a suggestion has been
  picked.\<close>

definition no_user_options :: ac_user_options where
  "no_user_options =
     \<lparr> u_value = None, u_valueName = None, u_instanceName = None,
       u_noNewValues = None, u_successClass = None, u_failClass = None \<rparr>"

definition typed_upper :: autocomplete where
  "typed_upper =
     on_template \<lparr>datum_id = ''1'', datum_name = ''a''\<rparr>
       (on_keydown ((ac_initialize no_user_options [])\<lparr>field_value := ''A''\<rparr>))"

definition picked_seven :: autocomplete where
  "picked_seven =
     on_selected \<lparr>datum_id = ''7'', datum_name = ''seven''\<rparr> (ac_initialize no_user_options [])"

text \<open>The same with \<^verbatim>\<open>noNewValues: true\<close>, before and after a suggestion was shown.\<close>

definition strict_fresh :: autocomplete where
  "strict_fresh = on_keydown (ac_initialize (no_user_options\<lparr>u_noNewValues := Some True\<rparr>) [])"

definition strict_shown :: autocomplete where
  "strict_shown = on_template \<lparr>datum_id = ''1'', datum_name = ''a''\<rparr> strict_fresh"

text \<open>A generator of ids \<^verbatim>\<open>u\<close>, \<^verbatim>\<open>uu\<close>, \<^verbatim>\<open>uuu\<close>, ..., the names under which an array of
  an ECMAScript 5 engine inherits a function or an object, and a toolbar rendered from
  data in which two items ask for the id \<^verbatim>\<open>save\<close>, a dropdown of type \<^verbatim>\<open>select\<close> has two
  enabled entries, one asking for the id \<^verbatim>\<open>push\<close>, a divider and a disabled entry, and
  one item has a callback.\<close>

definition uid_seq :: "nat \<Rightarrow> string" where
  "uid_seq n = replicate (Suc n) CHR ''u''"

definition plain :: item_props where
  "plain =
     \<lparr> item_id = None, title = None, icon = None, disabledIcon = None, disabled = False,
       iconSize = None, item_class = None, item_group = None, item_type = None,
       callback = None, divider = False, parentId = None, loading = False \<rparr>"

definition es5_array_members :: "string list" where
  "es5_array_members =
     [ ''constructor'', ''toString'', ''toLocaleString'', ''join'', ''pop'', ''push'',
       ''concat'', ''reverse'', ''shift'', ''unshift'', ''slice'', ''splice'', ''sort'',
       ''filter'', ''forEach'', ''some'', ''every'', ''map'', ''indexOf'', ''lastIndexOf'',
       ''reduce'', ''reduceRight'', ''hasOwnProperty'', ''isPrototypeOf'',
       ''propertyIsEnumerable'', ''valueOf'', ''__proto__'', ''__defineGetter__'',
       ''__defineSetter__'', ''__lookupGetter__'', ''__lookupSetter__'' ]"

definition blank_toolbar :: toolbar where
  "blank_toolbar =
     \<lparr> options = \<lparr>url = None, data = None, instanceName = []\<rparr>, items = Map.empty,
       items_length = 0, inherited = (\<lambda>k. k \<in> set es5_array_members), uid = 0,
       skeletons = [], trace = [],
       dom_events_bound = False, custom_events_bound = False \<rparr>"

definition lang_entries :: "item list" where
  "lang_entries =
     [ Item (plain\<lparr>title := Some ''English''\<rparr>) None,
       Item (plain\<lparr>divider := True\<rparr>) None,
       Item (plain\<lparr>item_id := Some ''push'', title := Some ''Deutsch'', icon := Some ''flag''\<rparr>)
         None,
       Item (plain\<lparr>title := Some ''Italiano'', disabled := True\<rparr>) None ]"

definition lang :: item where
  "lang =
     Item (plain\<lparr>item_id := Some ''lang'', title := Some ''Language'', icon := Some ''globe'',
                 item_type := Some ''select''\<rparr>)
       (Some lang_entries)"

definition sample_data :: "item list" where
  "sample_data =
     [ Item (plain\<lparr>item_id := Some ''save'', title := Some ''Save'', icon := Some ''floppy'',
                   disabledIcon := Some ''floppy-off''\<rparr>) None,
       Item (plain\<lparr>item_id := Some ''save'', title := Some ''Save as'', callback := Some 1,
                   item_group := Some ''right''\<rparr>) None,
       lang ]"

definition sample_options :: tb_user_options where
  "sample_options =
     \<lparr> u_url = None, u_data = Some (Some sample_data), u_tb_instanceName = Some ''main'' \<rparr>"

definition sample_toolbar :: toolbar where
  "sample_toolbar =
     (case initialize uid_seq sample_options blank_toolbar of
        Some (Inr t) \<Rightarrow> t
      | _ \<Rightarrow> blank_toolbar)"

definition url_options :: tb_user_options where
  "url_options = \<lparr> u_url = Some ''/toolbar.json'', u_data = None, u_tb_instanceName = None \<rparr>"

text \<open>The items as \<^verbatim>\<open>this.items\<close> holds them after rendering; the toolbar
  after \<^verbatim>\<open>item.loading\<close> for the first and after \<^verbatim>\<open>item.disable\<close> for it then; and the
  data rendered without the rest of \<^verbatim>\<open>initialize\<close>.\<close>

definition stored_save :: item where
  "stored_save =
     Item (plain\<lparr>item_id := Some ''save'', title := Some ''Save'', icon := Some ''floppy'',
                 disabledIcon := Some ''floppy-off''\<rparr>) None"

definition stored_save_as :: item where
  "stored_save_as =
     Item (plain\<lparr>item_id := Some ''u'', title := Some ''Save as'', callback := Some 1,
                 item_group := Some ''right''\<rparr>) None"

definition stored_english :: item where
  "stored_english =
     Item (plain\<lparr>item_id := Some ''uu'', title := Some ''English'',
                 parentId := Some ''lang''\<rparr>) None"

definition stored_deutsch :: item where
  "stored_deutsch =
     Item (plain\<lparr>item_id := Some ''uuu'', title := Some ''Deutsch'', icon := Some ''flag'',
                 parentId := Some ''lang''\<rparr>) None"

definition stored_italiano :: item where
  "stored_italiano =
     Item (plain\<lparr>item_id := Some ''uuuu'', title := Some ''Italiano'', disabled := True,
                 parentId := Some ''lang''\<rparr>) None"

definition stored_lang :: item where
  "stored_lang =
     Item (plain\<lparr>item_id := Some ''lang'', title := Some ''Language'', icon := Some ''globe'',
                 item_type := Some ''select''\<rparr>)
       (Some [stored_english, Item (plain\<lparr>divider := True\<rparr>) None, stored_deutsch,
              stored_italiano])"

definition loading_toolbar :: toolbar where
  "loading_toolbar =
     (case itemLoading ''save'' sample_toolbar of Inr t \<Rightarrow> t | Inl e \<Rightarrow> sample_toolbar)"

text \<open>Two auto-completes that differ in their instance name only.\<close>

definition first_ac :: autocomplete where
  "first_ac = ac_initialize (no_user_options\<lparr>u_instanceName := Some ''first''\<rparr>) []"

definition second_ac :: autocomplete where
  "second_ac = ac_initialize (no_user_options\<lparr>u_instanceName := Some ''second''\<rparr>) []"


definition rendered_sample :: toolbar where
  "rendered_sample =
     (case render uid_seq blank_toolbar sample_data of
        Some (Inr t) \<Rightarrow> t
      | _ \<Rightarrow> blank_toolbar)"



definition orphan :: item where
  "orphan = Item (plain\<lparr>item_id := Some ''a'', parentId := Some ''ghost''\<rparr>) None"

definition orphan_toolbar :: toolbar where
  "orphan_toolbar =
     (case initialize uid_seq
             \<lparr> u_url = None, u_data = Some (Some [orphan]), u_tb_instanceName = None \<rparr>
             blank_toolbar of
        Some (Inr t) \<Rightarrow> t
      | _ \<Rightarrow> blank_toolbar)"

section \<open>Helper lemmas\<close>


lemma set_removeClass: "set (removeClass cs v) = set cs - set (tokens v)"
  by (auto simp: removeClass_def)

lemmas ac_defs = handleBlur_def isMatchedExactly_def isMatched_def getClosestMatch_def
  snap_def setValueFieldId_def setValueFieldValue_def getValueFieldValue_def
  setSuccessState_def setFailState_def

lemma event_names_distinct:
  "ITEM_DISABLE this \<noteq> ITEM_ENABLE this" "ITEM_DISABLE this \<noteq> ITEM_LOADING this"
  "ITEM_ENABLE this \<noteq> ITEM_LOADING this"
  "ITEM_ENABLE this \<noteq> ITEM_DISABLE this" "ITEM_LOADING this \<noteq> ITEM_DISABLE this"
  "ITEM_LOADING this \<noteq> ITEM_ENABLE this"
  by (simp_all add: ITEM_DISABLE_def ITEM_ENABLE_def ITEM_LOADING_def createEventName_def)



lemma emit_loading:
  "custom_events_bound this \<Longrightarrow> sandbox_emit (ITEM_LOADING this) i h this = itemLoading i this"
  by (simp add: sandbox_emit_def deliver_def event_names_distinct split: sum.splits)

lemma on_item_frame [simp]:
  "options (on_item i f g this) = options this"
  "items (on_item i f g this) = items this"
  "trace (on_item i f g this) = trace this"
  "uid (on_item i f g this) = uid this"
  "custom_events_bound (on_item i f g this) = custom_events_bound this"
  "dom_events_bound (on_item i f g this) = dom_events_bound this"
  "items_length (on_item i f g this) = items_length this"
  "inherited (on_item i f g this) = inherited this"
  by (simp_all add: on_item_def)

lemma upd_props [simp]: "props (upd f it) = f (props it)" "subitems (upd f it) = subitems it"
  by (cases it; simp)+

lemma itemLoading_result:
  assumes "itemLoading i this = Inr t"
  shows "\<exists>it. items t i = Some it \<and> loading (props it)"
    and "options t = options this"
    and "custom_events_bound t = custom_events_bound this"
  using assms
  by (auto simp: itemLoading_def Let_def split: option.splits if_splits)

subsection \<open>One pass over the entries\<close>


lemma menu_list_map [simp]:
  "menu_list (l\<lparr>menu := map_option (map h) (menu l)\<rparr>) = map h (menu_list l)"
  by (simp add: menu_list_def split: option.splits)






lemma doc_all_append: "doc_all i A B (xs @ ys) = (doc_all i A B xs \<and> doc_all i A B ys)"
  by (simp add: doc_all_def)






subsection \<open>The passes of \<^verbatim>\<open>toggleEnabled\<close>\<close>

declare tokens.simps [simp del]

lemma tokens_words [simp]:
  "tokens ''disabled'' = [''disabled'']"
  "tokens ''highlight-animation'' = [''highlight-animation'']"
  by (simp_all add: is_space_def tokens.simps)

lemma sub_id_kept [simp]:
  "sub_has_id i (restore_sub e) = sub_has_id i e"
  "sub_has_id i (highlight_sub e) = sub_has_id i e"
  "sub_has_id i (enable_sub e) = sub_has_id i e"
  "sub_has_id i (disable_sub e) = sub_has_id i e"
  "sub_has_id i (loading_sub e) = sub_has_id i e"
  by (cases e; simp add: restore_sub_def highlight_sub_def enable_sub_def disable_sub_def
        loading_sub_def)+

lemma data_id_kept [simp]:
  "data_id (restore_li l) = data_id l"
  "data_id (highlight_li l) = data_id l"
  "data_id (enable_li a b l) = data_id l"
  "data_id (disable_li a b l) = data_id l"
  "data_id (loading_li l) = data_id l"
  by (simp_all add: restore_li_def highlight_li_def enable_li_def disable_li_def loading_li_def
        li_set_hidden_def li_remove_loaders_def on_icon_def)







lemma entries_items_update [simp]: "entries (this\<lparr>items := m\<rparr>) = entries this"
  by (simp add: entries_def)





subsection \<open>Ids while rendering\<close>

lemma uniqueId_loop_fresh:
  assumes "inj gen" and "finite {k. taken k}"
  shows "\<exists>n. c \<le> n \<and> uniqueId_loop gen taken c = Some (gen n, Suc n) \<and> \<not> taken (gen n)
             \<and> (\<forall>m. c \<le> m \<and> m < n \<longrightarrow> taken (gen m))"
proof -
  define busy where "busy = (\<lambda>c. {n. c \<le> n \<and> taken (gen n)})"
  have fin: "finite (busy c)" for c
  proof (rule finite_subset)
    show "busy c \<subseteq> gen -` {k. taken k}" by (auto simp: busy_def)
    show "finite (gen -` {k. taken k})" using assms(2,1) by (rule finite_vimageI)
  qed
  show ?thesis
  proof (induction "card (busy c)" arbitrary: c rule: less_induct)
    case less
    show ?case
    proof (cases "taken (gen c)")
      case False
      then have "uniqueId_loop gen taken c = Some (gen c, Suc c)"
        by (subst uniqueId_loop.simps) simp
      with False show ?thesis by (intro exI [of _ c]) auto
    next
      case True
      then have "c \<in> busy c" by (simp add: busy_def)
      moreover have "busy (Suc c) = busy c - {c}" by (auto simp: busy_def)
      ultimately have "card (busy (Suc c)) < card (busy c)"
        using fin [of c] card_Diff1_less [of "busy c" c] by simp
      from less [OF this] obtain n where n: "Suc c \<le> n"
        "uniqueId_loop gen taken (Suc c) = Some (gen n, Suc n)" "\<not> taken (gen n)"
        "\<forall>m. Suc c \<le> m \<and> m < n \<longrightarrow> taken (gen m)"
        by blast
      have "uniqueId_loop gen taken c = uniqueId_loop gen taken (Suc c)"
        using True by (subst uniqueId_loop.simps) simp
      moreover have "taken (gen m)" if "c \<le> m" "m < n" for m
        using that n(4) True by (cases "m = c") auto
      ultimately show ?thesis using n by (intro exI [of _ n]) auto
    qed
  qed
qed

lemma finite_has_item:
  assumes "finite (dom (items this))" and "finite {k. inherited this k}"
  shows "finite {k. has_item this k}"
proof (rule finite_subset)
  show "{k. has_item this k} \<subseteq> dom (items this) \<union> {k. inherited this k} \<union> {''length''}"
    by (auto simp: has_item_def split: if_splits)
  show "finite (dom (items this) \<union> {k. inherited this k} \<union> {''length''})"
    using assms by simp
qed

text \<open>What \<^verbatim>\<open>checkItemId\<close> returns.\<close>

lemma checkItemId_result:
  assumes "inj gen" and "finite (dom (items this))" and "finite {k. inherited this k}"
  shows "\<exists>this1 item1 k. checkItemId gen this item = Some (this1, item1)
           \<and> item_id (props item1) = Some k \<and> \<not> has_item this k
           \<and> this1 = this\<lparr>uid := uid this1\<rparr>
           \<and> item1 = upd (\<lambda>p. p\<lparr>item_id := Some k\<rparr>) item
           \<and> (if truthy (item_id (props item)) \<and> \<not> has_item this (js_str (item_id (props item)))
               then item_id (props item) = Some k \<and> uid this1 = uid this
               else \<exists>n. uid this \<le> n \<and> k = gen n \<and> uid this1 = Suc n
                      \<and> (\<forall>m. uid this \<le> m \<and> m < n \<longrightarrow> has_item this (gen m)))"
proof (cases "truthy (item_id (props item)) \<and> \<not> has_item this (js_str (item_id (props item)))")
  case True
  then obtain k where k: "item_id (props item) = Some k"
    by (auto simp: truthy_def split: option.splits)
  have "upd (\<lambda>p. p\<lparr>item_id := Some k\<rparr>) item = item"
    using k by (cases item) simp
  with True k show ?thesis
    by (simp add: checkItemId_def js_str_def)
next
  case False
  from uniqueId_loop_fresh [OF assms(1) finite_has_item [OF assms(2,3)], of "uid this"]
  obtain n where n: "uid this \<le> n"
    "uniqueId_loop gen (has_item this) (uid this) = Some (gen n, Suc n)"
    "\<not> has_item this (gen n)"
    "\<forall>m. uid this \<le> m \<and> m < n \<longrightarrow> has_item this (gen m)"
    by blast
  with False show ?thesis
    by (auto simp: checkItemId_def)
qed

lemma keyed_uid [simp]: "keyed (this\<lparr>uid := c\<rparr>) = keyed this"
  by (simp add: keyed_def)

lemma has_item_uid [simp]: "has_item (this\<lparr>uid := c\<rparr>) = has_item this"
  by (simp add: has_item_def fun_eq_iff)

lemma store_length:
  "item_id (props item) = Some ''length'' \<Longrightarrow> store item this = Inl RangeError"
  by (simp add: store_def js_str_def)

lemma store_keyed:
  assumes "keyed this" and "item_id (props item) = Some k" and "\<not> has_item this k"
    and "k \<noteq> ''length''"
  shows "\<exists>t. store item this = Inr t \<and> keyed t
           \<and> card (dom (items t)) = Suc (card (dom (items this)))
           \<and> items t = (items this)(k \<mapsto> item)"
  using assms
  by (auto simp: keyed_def store_def js_str_def has_item_def domIff Let_def)


lemma check_and_store:
  assumes "inj gen" and "keyed this"
  shows "\<exists>this1 item1 k. checkItemId gen this item = Some (this1, item1)
           \<and> subitems item1 = subitems item
           \<and> item_id (props item1) = Some k
           \<and> (if k = ''length''
               then store item1 this1 = Inl RangeError
                    \<and> (item_id (props item) = Some ''length'' \<or> (\<exists>n. gen n = ''length''))
               else \<exists>t. store item1 this1 = Inr t \<and> keyed t
                      \<and> card (dom (items t)) = Suc (card (dom (items this)))
                      \<and> items t = (items this)(k \<mapsto> item1))"
proof -
  from assms(2) have fin: "finite (dom (items this))" "finite {k. inherited this k}"
    by (simp_all add: keyed_def)
  from checkItemId_result [OF assms(1) fin, of item]
  obtain this1 item1 k where r: "checkItemId gen this item = Some (this1, item1)"
    "item_id (props item1) = Some k" "\<not> has_item this k" "this1 = this\<lparr>uid := uid this1\<rparr>"
    "item1 = upd (\<lambda>p. p\<lparr>item_id := Some k\<rparr>) item"
    "if truthy (item_id (props item)) \<and> \<not> has_item this (js_str (item_id (props item)))
     then item_id (props item) = Some k \<and> uid this1 = uid this
     else \<exists>n. uid this \<le> n \<and> k = gen n \<and> uid this1 = Suc n
            \<and> (\<forall>m. uid this \<le> m \<and> m < n \<longrightarrow> has_item this (gen m))"
    by blast
  have same: "items this1 = items this" "keyed this1" "\<not> has_item this1 k"
    by (subst r(4), simp, subst r(4), simp add: assms(2), subst r(4), simp add: r(3))
  have sub: "subitems item1 = subitems item"
    by (simp add: r(5))
  show ?thesis
  proof (cases "k = ''length''")
    case True
    from r(6) True have "item_id (props item) = Some ''length'' \<or> (\<exists>n. gen n = ''length'')"
      by (auto split: if_splits)
    with True r(1,2) sub store_length [of item1 this1] show ?thesis
      by auto
  next
    case False
    from store_keyed [OF same(2) r(2) same(3) False] same(1) False r(1,2) sub show ?thesis
      by auto
  qed
qed

lemma dropdown_step_keyed:
  assumes "inj gen" and "keyed this"
  shows "\<exists>r. dropdown_step gen parent (this, cs, l, ss) item = Some r
           \<and> (\<forall>e. r = Inl e \<longrightarrow> e = RangeError
                 \<and> (\<not> divider (props item) \<and> item_id (props item) = Some ''length''
                    \<or> (\<exists>n. gen n = ''length'')))
           \<and> (\<forall>this1 cs1 l1 ss1. r = Inr (this1, cs1, l1, ss1) \<longrightarrow> keyed this1
                 \<and> card (dom (items this1))
                     = card (dom (items this)) + (if divider (props item) then 0 else 1)
                 \<and> dom (items this) \<subseteq> dom (items this1))"
proof (cases "divider (props item)")
  case True
  with assms(2) show ?thesis by (simp add: dropdown_step_def)
next
  case False
  let ?item = "upd (\<lambda>p. p\<lparr>parentId := item_id (props parent)\<rparr>) item"
  from check_and_store [OF assms, of ?item]
  obtain this1 item1 k where c: "checkItemId gen this ?item = Some (this1, item1)"
    "item_id (props item1) = Some k"
    "if k = ''length''
     then store item1 this1 = Inl RangeError
          \<and> (item_id (props ?item) = Some ''length'' \<or> (\<exists>n. gen n = ''length''))
     else \<exists>t. store item1 this1 = Inr t \<and> keyed t
            \<and> card (dom (items t)) = Suc (card (dom (items this)))
            \<and> items t = (items this)(k \<mapsto> item1)"
    by blast
  show ?thesis
  proof (cases "k = ''length''")
    case True
    with c False show ?thesis by (simp add: dropdown_step_def)
  next
    case no: False
    with c(3) obtain t where t: "store item1 this1 = Inr t" "keyed t"
      "card (dom (items t)) = Suc (card (dom (items this)))"
      "items t = (items this)(k \<mapsto> item1)"
      by auto
    from t(4) have "dom (items this) \<subseteq> dom (items t)" by auto
    with c(1) t(1-3) False show ?thesis by (simp add: dropdown_step_def Let_def)
  qed
qed

lemma dropdown_loop_keyed:
  assumes "inj gen" and "keyed this"
  shows "\<exists>r. dropdown_loop gen parent (this, cs, l, ss) subs = Some r
           \<and> (\<forall>e. r = Inl e \<longrightarrow> e = RangeError
                 \<and> (Some ''length''
                      \<in> set (map (\<lambda>s. item_id (props s)) (filter (\<lambda>s. \<not> divider (props s)) subs))
                    \<or> (\<exists>n. gen n = ''length'')))
           \<and> (\<forall>this1 cs1 l1 ss1. r = Inr (this1, cs1, l1, ss1) \<longrightarrow> keyed this1
                 \<and> card (dom (items this1))
                     = card (dom (items this)) + length (filter (\<lambda>s. \<not> divider (props s)) subs)
                 \<and> dom (items this) \<subseteq> dom (items this1))"
  using assms(2)
proof (induction subs arbitrary: this cs l ss)
  case Nil
  then show ?case by simp
next
  case (Cons item rest)
  from dropdown_step_keyed [OF assms(1) Cons.prems, of parent cs l ss item]
  obtain r where one: "dropdown_step gen parent (this, cs, l, ss) item = Some r"
    "\<forall>e. r = Inl e \<longrightarrow> e = RangeError
        \<and> (\<not> divider (props item) \<and> item_id (props item) = Some ''length''
           \<or> (\<exists>n. gen n = ''length''))"
    "\<forall>this1 cs1 l1 ss1. r = Inr (this1, cs1, l1, ss1) \<longrightarrow> keyed this1
        \<and> card (dom (items this1))
            = card (dom (items this)) + (if divider (props item) then 0 else 1)
        \<and> dom (items this) \<subseteq> dom (items this1)"
    by blast
  show ?case
  proof (cases r)
    case (Inl e)
    with one(1,2) show ?thesis by auto
  next
    case (Inr st)
    obtain this1 cs1 l1 ss1 where st: "st = (this1, cs1, l1, ss1)"
      by (cases st) auto
    from one(3) Inr st have k1: "keyed this1"
      "card (dom (items this1))
         = card (dom (items this)) + (if divider (props item) then 0 else 1)"
      "dom (items this) \<subseteq> dom (items this1)"
      by auto
    from Cons.IH [OF k1(1), of cs1 l1 ss1]
    obtain r2 where two: "dropdown_loop gen parent (this1, cs1, l1, ss1) rest = Some r2"
      "\<forall>e. r2 = Inl e \<longrightarrow> e = RangeError
          \<and> (Some ''length''
               \<in> set (map (\<lambda>s. item_id (props s)) (filter (\<lambda>s. \<not> divider (props s)) rest))
             \<or> (\<exists>n. gen n = ''length''))"
      "\<forall>this2 cs2 l2 ss2. r2 = Inr (this2, cs2, l2, ss2) \<longrightarrow> keyed this2
          \<and> card (dom (items this2))
              = card (dom (items this1)) + length (filter (\<lambda>s. \<not> divider (props s)) rest)
          \<and> dom (items this1) \<subseteq> dom (items this2)"
      by blast
    have run: "dropdown_loop gen parent (this, cs, l, ss) (item # rest) = Some r2"
      using one(1) Inr st two(1) by simp
    show ?thesis
    proof (intro exI [of _ r2] conjI allI impI)
      show "dropdown_loop gen parent (this, cs, l, ss) (item # rest) = Some r2" by (rule run)
    next
      fix e assume "r2 = Inl e"
      with two(2) show "e = RangeError" by simp
    next
      fix e assume "r2 = Inl e"
      with two(2) show "Some ''length''
          \<in> set (map (\<lambda>s. item_id (props s)) (filter (\<lambda>s. \<not> divider (props s)) (item # rest)))
          \<or> (\<exists>n. gen n = ''length'')"
        by auto
    next
      fix this2 cs2 l2 ss2 assume "r2 = Inr (this2, cs2, l2, ss2)"
      with two(3) have k2: "keyed this2"
        "card (dom (items this2))
           = card (dom (items this1)) + length (filter (\<lambda>s. \<not> divider (props s)) rest)"
        "dom (items this1) \<subseteq> dom (items this2)"
        by auto
      show "keyed this2" by (rule k2(1))
      show "card (dom (items this2))
           = card (dom (items this)) + length (filter (\<lambda>s. \<not> divider (props s)) (item # rest))"
        using k1(2) k2(2) by simp
      show "dom (items this) \<subseteq> dom (items this2)"
        using k1(3) k2(3) by blast
    qed
  qed
qed

lemma append_li_items [simp]: "items (append_li r l this) = items this"
  by (simp add: append_li_def)

lemma keyed_append_li [simp]: "keyed (append_li r l this) = keyed this"
  by (simp add: keyed_def append_li_def)

lemma keyed_restore:
  assumes "keyed this" and "k \<in> dom (items this)" and "item_id (props item) = Some k"
  shows "keyed (this\<lparr>items := (items this)(k \<mapsto> item)\<rparr>)"
    and "card (dom (items (this\<lparr>items := (items this)(k \<mapsto> item)\<rparr>))) = card (dom (items this))"
proof -
  from assms(2) have "insert k (dom (items this)) = dom (items this)" by auto
  then show "card (dom (items (this\<lparr>items := (items this)(k \<mapsto> item)\<rparr>))) = card (dom (items this))"
    by simp
  from assms(1,2) have "k \<noteq> ''length''" by (auto simp: keyed_def)
  with assms show "keyed (this\<lparr>items := (items this)(k \<mapsto> item)\<rparr>)"
    by (auto simp: keyed_def)
qed

lemma render_item_keyed:
  assumes "inj gen" and "keyed this"
  shows "\<exists>r. render_item gen this item = Some r
           \<and> (\<forall>e. r = Inl e \<longrightarrow> e = RangeError
                 \<and> (Some ''length'' \<in> set (asked_ids [item]) \<or> (\<exists>n. gen n = ''length'')))
           \<and> (\<forall>t. r = Inr t \<longrightarrow> keyed t
                 \<and> card (dom (items t)) = card (dom (items this)) + stored_count [item])"
proof -
  from check_and_store [OF assms, of item] obtain this1 item1 k where c:
    "checkItemId gen this item = Some (this1, item1)" "subitems item1 = subitems item"
    "item_id (props item1) = Some k"
    "if k = ''length''
     then store item1 this1 = Inl RangeError
          \<and> (item_id (props item) = Some ''length'' \<or> (\<exists>n. gen n = ''length''))
     else \<exists>t. store item1 this1 = Inr t \<and> keyed t
            \<and> card (dom (items t)) = Suc (card (dom (items this)))
            \<and> items t = (items this)(k \<mapsto> item1)"
    by blast
  show ?thesis
  proof (cases "k = ''length''")
    case True
    with c show ?thesis by (auto simp: render_item_def asked_ids_def)
  next
    case False
    with c(4) obtain this2 where s: "store item1 this1 = Inr this2" "keyed this2"
      "card (dom (items this2)) = Suc (card (dom (items this)))"
      "items this2 = (items this)(k \<mapsto> item1)"
      by auto
    show ?thesis
    proof (cases "subitems item")
      case None
      with c(1,2) s(1-3) show ?thesis
        by (simp add: render_item_def Let_def stored_count_def)
    next
      case (Some subs)
      from dropdown_loop_keyed [OF assms(1) s(2), of item1 "[]" "[]" "[]" subs]
      obtain r where d: "dropdown_loop gen item1 (this2, [], [], []) subs = Some r"
        "\<forall>e. r = Inl e \<longrightarrow> e = RangeError
           \<and> (Some ''length''
                \<in> set (map (\<lambda>s. item_id (props s)) (filter (\<lambda>s. \<not> divider (props s)) subs))
              \<or> (\<exists>n. gen n = ''length''))"
        "\<forall>this3 cs1 l1 ss1. r = Inr (this3, cs1, l1, ss1) \<longrightarrow> keyed this3
           \<and> card (dom (items this3))
               = card (dom (items this2)) + length (filter (\<lambda>s. \<not> divider (props s)) subs)
           \<and> dom (items this2) \<subseteq> dom (items this3)"
        by blast
      show ?thesis
      proof (cases r)
        case (Inl e)
        with d(1,2) c(1,2) s(1) Some show ?thesis
          by (auto simp: render_item_def Let_def createDropdownMenu_def asked_ids_def)
      next
        case (Inr st)
        obtain this3 cs1 l1 ss1 where st: "st = (this3, cs1, l1, ss1)"
          by (cases st) auto
        from d(3) Inr st have k3: "keyed this3"
          "card (dom (items this3))
             = card (dom (items this2)) + length (filter (\<lambda>s. \<not> divider (props s)) subs)"
          "dom (items this2) \<subseteq> dom (items this3)"
          by auto
        from s(4) k3(3) have in3: "k \<in> dom (items this3)" by auto
        have idp: "item_id (props (Item (props item1) (Some ss1))) = Some k"
          using c(3) by simp
        note re = keyed_restore [OF k3(1) in3 idp]
        have key: "js_str (item_id (props item1)) = k"
          using c(3) by (simp add: js_str_def)
        from d(1) Inr st c(1,2) s(1) Some re k3(2) s(3) key show ?thesis
          by (simp add: render_item_def Let_def createDropdownMenu_def stored_count_def)
      qed
    qed
  qed
qed

lemma stored_count_Cons: "stored_count (item # rest) = stored_count [item] + stored_count rest"
  by (simp add: stored_count_def)

lemma asked_ids_Cons: "asked_ids (item # rest) = asked_ids [item] @ asked_ids rest"
  by (simp add: asked_ids_def)

lemma render_loop_keyed:
  assumes "inj gen" and "keyed this"
  shows "\<exists>r. render_loop gen this d = Some r
           \<and> (\<forall>e. r = Inl e \<longrightarrow> e = RangeError
                 \<and> (Some ''length'' \<in> set (asked_ids d) \<or> (\<exists>n. gen n = ''length'')))
           \<and> (\<forall>t. r = Inr t \<longrightarrow> keyed t
                 \<and> card (dom (items t)) = card (dom (items this)) + stored_count d)"
  using assms(2)
proof (induction d arbitrary: this)
  case Nil
  then show ?case by (simp add: stored_count_def)
next
  case (Cons item rest)
  from render_item_keyed [OF assms(1) Cons.prems, of item] obtain r where one:
    "render_item gen this item = Some r"
    "\<forall>e. r = Inl e \<longrightarrow> e = RangeError
       \<and> (Some ''length'' \<in> set (asked_ids [item]) \<or> (\<exists>n. gen n = ''length''))"
    "\<forall>t. r = Inr t \<longrightarrow> keyed t
       \<and> card (dom (items t)) = card (dom (items this)) + stored_count [item]"
    by blast
  show ?case
  proof (cases r)
    case (Inl e)
    with one(1,2) show ?thesis by (auto simp: asked_ids_Cons [of item rest])
  next
    case (Inr this1)
    with one(3) have k1: "keyed this1"
      "card (dom (items this1)) = card (dom (items this)) + stored_count [item]"
      by auto
    from Cons.IH [OF k1(1)] obtain r2 where two: "render_loop gen this1 rest = Some r2"
      "\<forall>e. r2 = Inl e \<longrightarrow> e = RangeError
         \<and> (Some ''length'' \<in> set (asked_ids rest) \<or> (\<exists>n. gen n = ''length''))"
      "\<forall>t. r2 = Inr t \<longrightarrow> keyed t
         \<and> card (dom (items t)) = card (dom (items this1)) + stored_count rest"
      by blast
    have run: "render_loop gen this (item # rest) = Some r2"
      using one(1) Inr two(1) by simp
    from two(2) have bad: "e = RangeError
        \<and> (Some ''length'' \<in> set (asked_ids (item # rest)) \<or> (\<exists>n. gen n = ''length''))"
      if "r2 = Inl e" for e
      using that by (auto simp: asked_ids_Cons [of item rest])
    from two(3) k1(2) have good: "keyed t
        \<and> card (dom (items t)) = card (dom (items this)) + stored_count (item # rest)"
      if "r2 = Inr t" for t
      using that by (simp add: stored_count_Cons [of item rest])
    from run bad good show ?thesis by blast
  qed
qed

lemma render_keyed:
  assumes "inj gen" and "finite {k. inherited this k}"
  shows "\<exists>r. render gen this d = Some r
           \<and> (\<forall>e. r = Inl e \<longrightarrow> e = RangeError
                 \<and> (Some ''length'' \<in> set (asked_ids d) \<or> (\<exists>n. gen n = ''length'')))
           \<and> (\<forall>t. r = Inr t \<longrightarrow> keyed t \<and> card (dom (items t)) = stored_count d)"
proof -
  let ?start = "this\<lparr>items := Map.empty, items_length := 0,
      skeletons := skeletons this @ [([], [])]\<rparr>"
  have "keyed ?start"
    using assms(2) by (simp add: keyed_def)
  from render_loop_keyed [OF assms(1) this, of d] obtain r where r:
    "render_loop gen ?start d = Some r"
    "\<forall>e. r = Inl e \<longrightarrow> e = RangeError
       \<and> (Some ''length'' \<in> set (asked_ids d) \<or> (\<exists>n. gen n = ''length''))"
    "\<forall>t. r = Inr t \<longrightarrow> keyed t
       \<and> card (dom (items t)) = card (dom (items ?start)) + stored_count d"
    by blast
  show ?thesis
  proof (cases r)
    case (Inl e)
    with r(1,2) show ?thesis by (simp add: render_def)
  next
    case (Inr t)
    with r(3) have "keyed t" "card (dom (items t)) = stored_count d" by auto
    with r(1) Inr show ?thesis by (simp add: render_def keyed_def)
  qed
qed

subsection \<open>One entry at its place\<close>

lemma on_li_at_frame [simp]:
  "options (on_li_at p f this) = options this"
  "items (on_li_at p f this) = items this"
  "trace (on_li_at p f this) = trace this"
  "uid (on_li_at p f this) = uid this"
  by (simp_all add: on_li_at_def split: option.splits prod.splits)

lemma changeMainListItem_frame [simp]:
  "options (changeMainListItem e item this) = options this"
  "items (changeMainListItem e item this) = items this"
  "trace (changeMainListItem e item this) = trace this"
  by (simp_all add: changeMainListItem_def split: option.splits)

lemma li_at_on_li_at:
  "li_at q (on_li_at p f this) = (if q = p then map_option f (li_at p this) else li_at q this)"
proof (cases "li_at p this")
  case None
  then show ?thesis by (simp add: on_li_at_def)
next
  case (Some l)
  obtain k r j where p: "p = (k, r, j)" by (cases p) auto
  obtain k' r' j' where q: "q = (k', r', j')" by (cases q) auto
  from Some p have k: "k < length (skeletons this)"
    by (simp add: li_at_def split: if_splits)
  from Some p k have j: "j < length (if r then snd (skeletons this ! k) else fst (skeletons this ! k))"
    "(if r then snd (skeletons this ! k) else fst (skeletons this ! k)) ! j = l"
    by (auto simp: li_at_def Let_def split: if_splits)
  show ?thesis
    using Some k j unfolding p q
    by (cases r; cases r')
      (auto simp: li_at_def on_li_at_def Let_def nth_list_update)
qed

lemma li_at_skeletons: "skeletons t = skeletons this \<Longrightarrow> li_at p t = li_at p this"
  by (cases p) (simp add: li_at_def)

section \<open>The claims\<close>

subsection \<open>C1: ids are unique\<close>

text \<open>
  C1: whenever the id generator never returns the same id twice and an array inherits
  finitely many names, \<^verbatim>\<open>render\<close> comes to an end. When it returns, every item in
  \<^verbatim>\<open>this.items\<close> is stored under its own id, no two stored items have the same id, and
  the keys are as many as the items the data asked to store (top-level items and the
  entries of dropdowns that are not dividers), so none has taken another's place. It
  raises nothing but a RangeError, and that only when an item asks for the id
  \<^verbatim>\<open>length\<close> or the generator returns it. \<^verbatim>\<open>checkItemId\<close> returns with an id under
  which \<^verbatim>\<open>this.items\<close> has nothing: the item's own id when it has one under which
  \<^verbatim>\<open>this.items\<close> has nothing, otherwise the first generated id of that kind; the item is
  then stored under it, unless the id is \<^verbatim>\<open>length\<close>.
\<close>

theorem rendered_ids_unique:
  assumes "inj gen" and "finite {k. inherited this k}"
  shows "(\<exists>r. render gen this d = Some r
            \<and> (case r of
                 Inl e \<Rightarrow>
                   e = RangeError
                   \<and> (Some ''length'' \<in> set (asked_ids d) \<or> (\<exists>n. gen n = ''length''))
               | Inr t \<Rightarrow>
                   (\<forall>k item. items t k = Some item \<longrightarrow> item_id (props item) = Some k)
                   \<and> (\<forall>k k' a b. items t k = Some a \<and> items t k' = Some b
                         \<and> item_id (props a) = item_id (props b) \<longrightarrow> k = k')
                   \<and> card (dom (items t)) = stored_count d))
       \<and> (finite (dom (items s)) \<and> finite {k. inherited s k} \<longrightarrow>
            (\<exists>s1 item1 k. checkItemId gen s item = Some (s1, item1)
               \<and> item_id (props item1) = Some k \<and> \<not> has_item s k
               \<and> (if k = ''length'' then store item1 s1 = Inl RangeError
                   else \<exists>s2. store item1 s1 = Inr s2 \<and> items s2 k = Some item1)
               \<and> (if truthy (item_id (props item))
                      \<and> \<not> has_item s (js_str (item_id (props item)))
                   then item1 = item
                   else \<exists>n. uid s \<le> n \<and> k = gen n
                          \<and> (\<forall>m. uid s \<le> m \<and> m < n \<longrightarrow> has_item s (gen m)))))"
proof
  from render_keyed [OF assms, of d] obtain r where r: "render gen this d = Some r"
    "\<forall>e. r = Inl e \<longrightarrow> e = RangeError
       \<and> (Some ''length'' \<in> set (asked_ids d) \<or> (\<exists>n. gen n = ''length''))"
    "\<forall>t. r = Inr t \<longrightarrow> keyed t \<and> card (dom (items t)) = stored_count d"
    by blast
  have "case r of
          Inl e \<Rightarrow>
            e = RangeError
            \<and> (Some ''length'' \<in> set (asked_ids d) \<or> (\<exists>n. gen n = ''length''))
        | Inr t \<Rightarrow>
            (\<forall>k item. items t k = Some item \<longrightarrow> item_id (props item) = Some k)
            \<and> (\<forall>k k' a b. items t k = Some a \<and> items t k' = Some b
                  \<and> item_id (props a) = item_id (props b) \<longrightarrow> k = k')
            \<and> card (dom (items t)) = stored_count d"
  proof (cases r)
    case (Inl e)
    with r(2) show ?thesis by simp
  next
    case (Inr t)
    with r(3) have t: "keyed t" "card (dom (items t)) = stored_count d" by auto
    from t(1) have key: "item_id (props item) = Some k" if "items t k = Some item" for k item
      using that by (simp add: keyed_def)
    have uniq: "k = k'" if "items t k = Some a" "items t k' = Some b"
      "item_id (props a) = item_id (props b)" for k k' a b
      using key [OF that(1)] key [OF that(2)] that(3) by simp
    have "(\<forall>k item. items t k = Some item \<longrightarrow> item_id (props item) = Some k)
        \<and> (\<forall>k k' a b. items t k = Some a \<and> items t k' = Some b
              \<and> item_id (props a) = item_id (props b) \<longrightarrow> k = k')
        \<and> card (dom (items t)) = stored_count d"
    proof (intro conjI allI impI)
      show "item_id (props item) = Some k" if "items t k = Some item" for k item
        by (rule key [OF that])
      show "k = k'" if "items t k = Some a \<and> items t k' = Some b
          \<and> item_id (props a) = item_id (props b)" for k k' a b
        using that uniq by simp
      show "card (dom (items t)) = stored_count d" by (rule t(2))
    qed
    with Inr show ?thesis by simp
  qed
  with r(1) show "\<exists>r. render gen this d = Some r
            \<and> (case r of
                 Inl e \<Rightarrow>
                   e = RangeError
                   \<and> (Some ''length'' \<in> set (asked_ids d) \<or> (\<exists>n. gen n = ''length''))
               | Inr t \<Rightarrow>
                   (\<forall>k item. items t k = Some item \<longrightarrow> item_id (props item) = Some k)
                   \<and> (\<forall>k k' a b. items t k = Some a \<and> items t k' = Some b
                         \<and> item_id (props a) = item_id (props b) \<longrightarrow> k = k')
                   \<and> card (dom (items t)) = stored_count d)"
    by (intro exI [of _ r] conjI)
next
  show "finite (dom (items s)) \<and> finite {k. inherited s k} \<longrightarrow>
            (\<exists>s1 item1 k. checkItemId gen s item = Some (s1, item1)
               \<and> item_id (props item1) = Some k \<and> \<not> has_item s k
               \<and> (if k = ''length'' then store item1 s1 = Inl RangeError
                   else \<exists>s2. store item1 s1 = Inr s2 \<and> items s2 k = Some item1)
               \<and> (if truthy (item_id (props item))
                      \<and> \<not> has_item s (js_str (item_id (props item)))
                   then item1 = item
                   else \<exists>n. uid s \<le> n \<and> k = gen n
                          \<and> (\<forall>m. uid s \<le> m \<and> m < n \<longrightarrow> has_item s (gen m))))"
  proof
    assume fin: "finite (dom (items s)) \<and> finite {k. inherited s k}"
    from checkItemId_result [OF assms(1) fin [THEN conjunct1] fin [THEN conjunct2], of item]
    obtain s1 item1 k where r: "checkItemId gen s item = Some (s1, item1)"
      "item_id (props item1) = Some k" "\<not> has_item s k"
      "item1 = upd (\<lambda>p. p\<lparr>item_id := Some k\<rparr>) item"
      "if truthy (item_id (props item)) \<and> \<not> has_item s (js_str (item_id (props item)))
       then item_id (props item) = Some k \<and> uid s1 = uid s
       else \<exists>n. uid s \<le> n \<and> k = gen n \<and> uid s1 = Suc n
              \<and> (\<forall>m. uid s \<le> m \<and> m < n \<longrightarrow> has_item s (gen m))"
      by blast
    have same: "item1 = item" if "item_id (props item) = Some k"
      using that r(4) by (cases item) simp
    have stored: "if k = ''length'' then store item1 s1 = Inl RangeError
                  else \<exists>s2. store item1 s1 = Inr s2 \<and> items s2 k = Some item1"
      using r(2) by (simp add: store_def js_str_def)
    have last: "if truthy (item_id (props item))
                      \<and> \<not> has_item s (js_str (item_id (props item)))
                   then item1 = item
                   else \<exists>n. uid s \<le> n \<and> k = gen n
                          \<and> (\<forall>m. uid s \<le> m \<and> m < n \<longrightarrow> has_item s (gen m))"
    proof (cases "truthy (item_id (props item))
                      \<and> \<not> has_item s (js_str (item_id (props item)))")
      case True
      with r(5) have "item_id (props item) = Some k" by simp
      with True same show ?thesis by simp
    next
      case False
      with r(5) obtain n where "uid s \<le> n" "k = gen n"
        "\<forall>m. uid s \<le> m \<and> m < n \<longrightarrow> has_item s (gen m)"
        by auto
      with False show ?thesis by (simp only: if_False) blast
    qed
    show "\<exists>s1 item1 k. checkItemId gen s item = Some (s1, item1)
               \<and> item_id (props item1) = Some k \<and> \<not> has_item s k
               \<and> (if k = ''length'' then store item1 s1 = Inl RangeError
                   else \<exists>s2. store item1 s1 = Inr s2 \<and> items s2 k = Some item1)
               \<and> (if truthy (item_id (props item))
                      \<and> \<not> has_item s (js_str (item_id (props item)))
                   then item1 = item
                   else \<exists>n. uid s \<le> n \<and> k = gen n
                          \<and> (\<forall>m. uid s \<le> m \<and> m < n \<longrightarrow> has_item s (gen m)))"
      by (intro exI [of _ s1] exI [of _ item1] exI [of _ k] conjI)
        (rule r(1), rule r(2), rule r(3), rule stored, rule last)
  qed
qed

theorem rendered_ids_unique_witness:
  "render uid_seq blank_toolbar sample_data = Some (Inr rendered_sample)
   \<and> card (dom (items rendered_sample)) = 6
   \<and> map_option (item_id \<circ> props) (items rendered_sample ''save'') = Some (Some ''save'')
   \<and> map_option (item_id \<circ> props) (items rendered_sample ''u'') = Some (Some ''u'')
   \<and> map_option (item_id \<circ> props) (items rendered_sample ''uuu'') = Some (Some ''uuu'')
   \<and> items rendered_sample ''push'' = None
   \<and> map_option (item_id \<circ> props \<circ> snd) (checkItemId uid_seq blank_toolbar (Item plain None))
       = Some (Some ''u'')"
proof -
  have gen: "inj uid_seq"
    by (simp add: inj_def uid_seq_def)
  have inh: "finite {k. inherited blank_toolbar k}"
    by (simp add: blank_toolbar_def)
  have fin: "finite (dom (items blank_toolbar)) \<and> finite {k. inherited blank_toolbar k}"
    by (simp add: blank_toolbar_def)
  have count: "stored_count sample_data = 6"
    by code_simp
  have absent: "\<not> (truthy (item_id (props (Item plain None)))
      \<and> \<not> has_item blank_toolbar (js_str (item_id (props (Item plain None)))))"
    by code_simp
  have free: "\<not> has_item blank_toolbar (uid_seq 0)"
    by code_simp
  have first: "uid_seq n = ''u''" if "uid blank_toolbar \<le> n"
    "\<forall>m. uid blank_toolbar \<le> m \<and> m < n \<longrightarrow> has_item blank_toolbar (uid_seq m)" for n
  proof -
    have "n = 0"
    proof (rule ccontr)
      assume "n \<noteq> 0"
      with that(2) have "has_item blank_toolbar (uid_seq 0)"
        by (simp add: blank_toolbar_def)
      with free show False by simp
    qed
    then show ?thesis by (simp add: uid_seq_def)
  qed
  have returns: "case render uid_seq blank_toolbar sample_data of
                   Some (Inr t) \<Rightarrow> True | _ \<Rightarrow> False"
    by code_simp
  have stored: "items rendered_sample ''save'' \<noteq> None" "items rendered_sample ''u'' \<noteq> None"
    "items rendered_sample ''uuu'' \<noteq> None" "items rendered_sample ''push'' = None"
    by code_simp+
  note inst = rendered_ids_unique [OF gen inh, of sample_data blank_toolbar "Item plain None"]
  from inst [THEN conjunct1] obtain r where r:
    "render uid_seq blank_toolbar sample_data = Some r"
    "case r of
       Inl e \<Rightarrow>
         e = RangeError
         \<and> (Some ''length'' \<in> set (asked_ids sample_data) \<or> (\<exists>n. uid_seq n = ''length''))
     | Inr t \<Rightarrow>
         (\<forall>k item. items t k = Some item \<longrightarrow> item_id (props item) = Some k)
         \<and> (\<forall>k k' a b. items t k = Some a \<and> items t k' = Some b
               \<and> item_id (props a) = item_id (props b) \<longrightarrow> k = k')
         \<and> card (dom (items t)) = stored_count sample_data"
    by blast
  from returns r(1) obtain t where rt: "r = Inr t"
    by (cases r) simp_all
  from r rt count have t: "render uid_seq blank_toolbar sample_data = Some (Inr t)"
    "\<forall>k item. items t k = Some item \<longrightarrow> item_id (props item) = Some k"
    "card (dom (items t)) = 6"
    by simp_all
  from t(1) have same: "rendered_sample = t"
    by (simp add: rendered_sample_def)
  from inst [THEN conjunct2, rule_format, OF fin] absent first
  have "\<exists>s1 item1. checkItemId uid_seq blank_toolbar (Item plain None) = Some (s1, item1)
        \<and> item_id (props item1) = Some ''u''"
    by (auto split: if_splits)
  with t same stored show ?thesis
    by auto
qed

subsection \<open>C2: what a blur does\<close>

text \<open>
  C2, as the code has it, for whatever \<^verbatim>\<open>trim\<close> and \<^verbatim>\<open>toLowerCase\<close> do. With
  \<^verbatim>\<open>noNewValues\<close> set, a blur either snaps the field's value and \<^verbatim>\<open>data-id\<close> to the
  closest match and adds the success class (the input is matched and there is a closest
  match) or adds the fail class. Without it, the classes stay as they are, and the field
  changes only by being snapped to the closest match, which happens only when the input is
  matched and the trimmed value, in lower case, is the closest match's name in lower case;
  in that case it does happen.
\<close>

theorem handleBlur_amended:
  "(noNewValues (ac_opts s) \<and> matched s \<and> matches s = m # ms \<longrightarrow>
      handleBlur trim toLowerCase s
        = Inr (s\<lparr>field_value := datum_name m, field_data_id := datum_id m,
                 el_classes := addClass (el_classes s) (successClass (ac_opts s))\<rparr>))
   \<and> (noNewValues (ac_opts s) \<and> \<not> (matched s \<and> matches s \<noteq> []) \<longrightarrow>
      handleBlur trim toLowerCase s
        = Inr (s\<lparr>el_classes := addClass (el_classes s) (failClass (ac_opts s))\<rparr>))
   \<and> (\<not> noNewValues (ac_opts s) \<longrightarrow>
        (\<forall>s'. handleBlur trim toLowerCase s = Inr s' \<longrightarrow>
           el_classes s' = el_classes s
           \<and> (s' \<noteq> s \<longrightarrow>
                (\<exists>m ms. matched s \<and> matches s = m # ms
                   \<and> toLowerCase (trim (field_value s)) = toLowerCase (datum_name m)
                   \<and> s' = s\<lparr>field_value := datum_name m, field_data_id := datum_id m\<rparr>))))
   \<and> (\<not> noNewValues (ac_opts s) \<and> matched s \<and> matches s = m # ms
        \<and> toLowerCase (trim (field_value s)) = toLowerCase (datum_name m) \<longrightarrow>
        handleBlur trim toLowerCase s
          = Inr (s\<lparr>field_value := datum_name m, field_data_id := datum_id m\<rparr>))"
  by (auto simp: ac_defs split: list.splits sum.splits bool.splits if_splits)

theorem handleBlur_amended_witness:
  "handleBlur latin1_trim latin1_toLowerCase strict_shown
     = Inr (strict_shown\<lparr>field_value := ''a'', field_data_id := ''1'',
              el_classes := addClass (el_classes strict_shown) ''husky-auto-complete-success''\<rparr>)
   \<and> handleBlur latin1_trim latin1_toLowerCase strict_fresh
     = Inr (strict_fresh\<lparr>el_classes :=
              addClass (el_classes strict_fresh) ''husky-auto-complete-error''\<rparr>)
   \<and> handleBlur latin1_trim latin1_toLowerCase typed_upper
     = Inr (typed_upper\<lparr>field_value := ''a'', field_data_id := ''1''\<rparr>)"
proof -
  have shown: "noNewValues (ac_opts strict_shown) \<and> matched strict_shown
      \<and> matches strict_shown = \<lparr>datum_id = ''1'', datum_name = ''a''\<rparr> # []"
    by code_simp
  have fresh: "noNewValues (ac_opts strict_fresh)
      \<and> \<not> (matched strict_fresh \<and> matches strict_fresh \<noteq> [])"
    by code_simp
  have upper: "\<not> noNewValues (ac_opts typed_upper) \<and> matched typed_upper
      \<and> matches typed_upper = \<lparr>datum_id = ''1'', datum_name = ''a''\<rparr> # []
      \<and> latin1_toLowerCase (latin1_trim (field_value typed_upper))
          = latin1_toLowerCase (datum_name \<lparr>datum_id = ''1'', datum_name = ''a''\<rparr>)"
    by code_simp
  have opts: "successClass (ac_opts strict_shown) = ''husky-auto-complete-success''"
    "failClass (ac_opts strict_fresh) = ''husky-auto-complete-error''"
    by code_simp+
  let ?m = "\<lparr>datum_id = ''1'', datum_name = ''a''\<rparr>"
  have "handleBlur latin1_trim latin1_toLowerCase strict_shown
          = Inr (strict_shown\<lparr>field_value := datum_name ?m, field_data_id := datum_id ?m,
                   el_classes := addClass (el_classes strict_shown)
                                   (successClass (ac_opts strict_shown))\<rparr>)"
    using handleBlur_amended [of strict_shown ?m "[]" latin1_trim latin1_toLowerCase] shown
    by blast
  moreover have "handleBlur latin1_trim latin1_toLowerCase strict_fresh
          = Inr (strict_fresh\<lparr>el_classes :=
                   addClass (el_classes strict_fresh) (failClass (ac_opts strict_fresh))\<rparr>)"
    using handleBlur_amended [where s = strict_fresh and trim = latin1_trim
        and toLowerCase = latin1_toLowerCase] fresh
    by blast
  moreover have "handleBlur latin1_trim latin1_toLowerCase typed_upper
          = Inr (typed_upper\<lparr>field_value := datum_name ?m, field_data_id := datum_id ?m\<rparr>)"
    using handleBlur_amended [of typed_upper ?m "[]" latin1_trim latin1_toLowerCase] upper
    by blast
  ultimately show ?thesis
    by (simp only: opts datum.simps simp_thms)
qed

text \<open>
  C2 as stated fails: with the default options, the value \<^verbatim>\<open>A\<close> is none of the known
  suggestions (the only one is \<^verbatim>\<open>a\<close>), and the blur still snaps the field to it.
\<close>

theorem handleBlur_exact_counterexample:
  "\<not> noNewValues (ac_opts typed_upper)
   \<and> field_value typed_upper = ''A''
   \<and> map datum_name (matches typed_upper) = [''a'']
   \<and> handleBlur latin1_trim latin1_toLowerCase typed_upper
       = Inr (typed_upper\<lparr>field_value := ''a'', field_data_id := ''1''\<rparr>)
   \<and> typed_upper\<lparr>field_value := ''a'', field_data_id := ''1''\<rparr> \<noteq> typed_upper"
  by code_simp

subsection \<open>C6: what a keystroke resets\<close>

text \<open>
  C6, as the code has it. The \<^verbatim>\<open>keydown\<close> handler clears the matched flag and the list of
  matches and removes the success and fail classes; it leaves the field's \<^verbatim>\<open>data-id\<close>
  (the selected id) and the field's value as they are.
\<close>

theorem keydown_resets:
  "matched (on_keydown s) = False
   \<and> matches (on_keydown s) = []
   \<and> set (el_classes (on_keydown s))
       = set (el_classes s) - set (tokens (successClass (ac_opts s)))
           - set (tokens (failClass (ac_opts s)))
   \<and> field_data_id (on_keydown s) = field_data_id s
   \<and> field_value (on_keydown s) = field_value s"
  by (simp add: on_keydown_def setNoState_def set_removeClass)

text \<open>
  C6 as stated fails: after the suggestion with id \<^verbatim>\<open>7\<close> has been picked, a keystroke
  leaves \<^verbatim>\<open>7\<close> in the field's \<^verbatim>\<open>data-id\<close>.
\<close>

theorem keydown_keeps_selected_id:
  "field_data_id picked_seven = ''7'' \<and> field_data_id (on_keydown picked_seven) = ''7''"
  by code_simp

subsection \<open>C10: the blur right after initialisation\<close>

text \<open>
  C10 fails on the code: \<^verbatim>\<open>initialize\<close> leaves the matched flag set and the list of
  matches empty, and with the default options a blur in that state reads \<^verbatim>\<open>.name\<close> of
  null, whatever \<^verbatim>\<open>trim\<close> and \<^verbatim>\<open>toLowerCase\<close> do.
\<close>

theorem blur_after_initialize_throws:
  "matched (ac_initialize no_user_options [])
   \<and> matches (ac_initialize no_user_options []) = []
   \<and> getClosestMatch (ac_initialize no_user_options []) = None
   \<and> on_blur trim toLowerCase (ac_initialize no_user_options []) = Inl TypeError"
  by (simp add: on_blur_def handleBlur_def isMatchedExactly_def isMatched_def
      getClosestMatch_def ac_initialize_def ac_extend_def no_user_options_def Let_def)

subsection \<open>C9: loading twice\<close>

text \<open>
  C9: emitting \<^verbatim>\<open>item.loading\<close> for an id a second time gives the state the first
  emission gave (an error stays the error), and when the item is already loading the
  emission leaves the whole state, trace of started loaders included, as it is.
\<close>

theorem itemLoading_idempotent:
  "(case sandbox_emit (ITEM_LOADING this) i h this of
      Inl e \<Rightarrow> Inl e
    | Inr t \<Rightarrow> sandbox_emit (ITEM_LOADING t) i h' t)
   = sandbox_emit (ITEM_LOADING this) i h this
   \<and> (custom_events_bound this \<and> items this i = Some it \<and> loading (props it) \<longrightarrow>
        sandbox_emit (ITEM_LOADING this) i h this = Inr this)"
proof (cases "custom_events_bound this")
  case False
  then show ?thesis by (simp add: sandbox_emit_def)
next
  case True
  have again: "itemLoading i t = Inr t" if "itemLoading i this = Inr t" for t
    using itemLoading_result(1) [OF that] by (auto simp: itemLoading_def)
  have "(case itemLoading i this of Inl e \<Rightarrow> Inl e | Inr t \<Rightarrow> sandbox_emit (ITEM_LOADING t) i h' t)
        = itemLoading i this"
  proof (cases "itemLoading i this")
    case (Inl e)
    then show ?thesis by simp
  next
    case (Inr t)
    then have "custom_events_bound t" using True itemLoading_result(3) by simp
    then show ?thesis using Inr again by (simp add: emit_loading)
  qed
  moreover have "items this i = Some it \<and> loading (props it) \<longrightarrow> itemLoading i this = Inr this"
    by (simp add: itemLoading_def)
  ultimately show ?thesis using True by (simp add: emit_loading)
qed

theorem itemLoading_idempotent_witness:
  "sandbox_emit ''husky.edit-toolbar.main.item.loading'' ''save'' None loading_toolbar
     = Inr loading_toolbar"
proof -
  have pre: "custom_events_bound loading_toolbar
      \<and> items loading_toolbar ''save'' = Some (upd (\<lambda>p. p\<lparr>loading := True\<rparr>) stored_save)
      \<and> loading (props (upd (\<lambda>p. p\<lparr>loading := True\<rparr>) stored_save))"
    by code_simp
  have name: "ITEM_LOADING loading_toolbar = ''husky.edit-toolbar.main.item.loading''"
    by code_simp
  from itemLoading_idempotent [where this = loading_toolbar and i = "''save''" and h = None,
      THEN conjunct2, rule_format, OF pre]
  show ?thesis unfolding name .
qed

subsection \<open>C3: disabling and enabling an item\<close>




subsection \<open>C4: what selecting an item does\<close>

text \<open>
  C4, as the code has it: a click on the entry of a stored item whose \<^verbatim>\<open>parentId\<close> is
  unset or names a stored item. When the item is not disabled, not loading and has no
  sub-items, exactly one thing is added to what the component has done: the call of the
  item's callback if it has one, otherwise the emission of the instance's \<^verbatim>\<open>item.select\<close>
  with the item. When the item is disabled, loading or has sub-items, the click changes
  nothing at all.
\<close>

theorem selectItem_actions:
  assumes "items this (target_id event) = Some item"
    and "truthy (parentId (props item)) \<longrightarrow> items this (js_str (parentId (props item))) \<noteq> None"
  shows "(\<not> disabled (props item) \<and> \<not> loading (props item)
            \<and> (subitems item = None \<or> subitems item = Some []) \<longrightarrow>
          (\<exists>t. selectItem event this = Inr t
             \<and> trace t = trace this @
                 [case callback (props item) of
                    Some cb \<Rightarrow> Invoke cb
                  | None \<Rightarrow> Emit (createEventName this ''item.select'') (Some item)]))
       \<and> (disabled (props item) \<or> loading (props item)
            \<or> (\<exists>sub subs. subitems item = Some (sub # subs)) \<longrightarrow>
          selectItem event this = Inr this)"
  using assms
  by (auto simp: selectItem_def triggerSelectEvent_def emitEvent_def createEventName_def Let_def
      split: option.splits)

theorem selectItem_actions_witness:
  "(\<exists>t. selectItem \<lparr>target_id = ''u'', dom_parent = None\<rparr> sample_toolbar = Inr t
        \<and> trace t = trace sample_toolbar @ [Invoke 1])
   \<and> (\<exists>t. selectItem \<lparr>target_id = ''uu'', dom_parent = Some (0, False, 1)\<rparr> sample_toolbar
            = Inr t
        \<and> trace t = trace sample_toolbar
             @ [Emit ''husky.edit-toolbar.main.item.select'' (Some stored_english)])
   \<and> selectItem \<lparr>target_id = ''uuuu'', dom_parent = Some (0, False, 1)\<rparr> sample_toolbar
       = Inr sample_toolbar"
proof -
  have stored: "items sample_toolbar (target_id \<lparr>target_id = ''u'', dom_parent = None\<rparr>)
      = Some stored_save_as"
    "items sample_toolbar (target_id \<lparr>target_id = ''uu'', dom_parent = Some (0, False, 1)\<rparr>)
      = Some stored_english"
    "items sample_toolbar (target_id \<lparr>target_id = ''uuuu'', dom_parent = Some (0, False, 1)\<rparr>)
      = Some stored_italiano"
    by code_simp+
  have parents: "\<not> truthy (parentId (props stored_save_as))"
    "items sample_toolbar (js_str (parentId (props stored_english))) \<noteq> None"
    "items sample_toolbar (js_str (parentId (props stored_italiano))) \<noteq> None"
    by code_simp+
  have flags: "\<not> disabled (props stored_save_as) \<and> \<not> loading (props stored_save_as)
      \<and> subitems stored_save_as = None \<and> callback (props stored_save_as) = Some 1"
    "\<not> disabled (props stored_english) \<and> \<not> loading (props stored_english)
      \<and> subitems stored_english = None \<and> callback (props stored_english) = None"
    "disabled (props stored_italiano)"
    "createEventName sample_toolbar ''item.select'' = ''husky.edit-toolbar.main.item.select''"
    by code_simp+
  show ?thesis
    using selectItem_actions [OF stored(1), THEN conjunct1]
      selectItem_actions [OF stored(2), THEN conjunct1]
      selectItem_actions [OF stored(3), THEN conjunct2]
      parents flags
    by simp
qed

text \<open>
  C4 as stated fails. The only item of this toolbar is stored under the id \<^verbatim>\<open>a\<close>, is not
  disabled, not loading and has no sub-items, and its \<^verbatim>\<open>parentId\<close> is \<^verbatim>\<open>ghost\<close>, under
  which nothing is stored. A click on its entry raises a TypeError at
  \<^verbatim>\<open>parentItem.type\<close>: the callback is not looked at and no event is emitted.
\<close>

theorem select_orphan_counterexample:
  "items orphan_toolbar ''a'' = Some orphan
   \<and> disabled (props orphan) = False \<and> loading (props orphan) = False
   \<and> subitems orphan = None
   \<and> parentId (props orphan) = Some ''ghost''
   \<and> items orphan_toolbar ''ghost'' = None
   \<and> inherited orphan_toolbar ''ghost'' = False
   \<and> selectItem \<lparr>target_id = ''a'', dom_parent = None\<rparr> orphan_toolbar = Inl TypeError"
proof -
  have "case selectItem \<lparr>target_id = ''a'', dom_parent = None\<rparr> orphan_toolbar of
          Inl TypeError \<Rightarrow> True | _ \<Rightarrow> False"
    by code_simp
  then have run: "selectItem \<lparr>target_id = ''a'', dom_parent = None\<rparr> orphan_toolbar
      = Inl TypeError"
    by (auto split: sum.splits error.splits)
  have "items orphan_toolbar ''a'' = Some orphan
     \<and> disabled (props orphan) = False \<and> loading (props orphan) = False
     \<and> subitems orphan = None
     \<and> parentId (props orphan) = Some ''ghost''
     \<and> items orphan_toolbar ''ghost'' = None
     \<and> inherited orphan_toolbar ''ghost'' = False"
    by code_simp
  with run show ?thesis by simp
qed

subsection \<open>C7: a dropdown of type select\<close>

text \<open>
  C7, as the code has it, for the title. A click on the entry of a stored item that is
  not disabled, not loading and without sub-items, whose \<^verbatim>\<open>parentId\<close> names a stored item
  of type \<^verbatim>\<open>select\<close>, changes the top-level entry above the clicked one and no other: its
  title span takes the item's title if the item has one and stays as it is otherwise, and
  nothing else of it changes but, possibly, the classes of its icon span, of which
  nothing is said here. With no parent, or a parent of another type, all entries stay as
  they are; so they do, with the whole state, when the item is disabled or loading.
\<close>

theorem select_changes_main_item:
  assumes "items this (target_id event) = Some item"
  shows "(\<not> disabled (props item) \<and> \<not> loading (props item)
            \<and> (subitems item = None \<or> subitems item = Some [])
            \<and> truthy (parentId (props item))
            \<and> items this (js_str (parentId (props item))) = Some parentItem
            \<and> item_type (props parentItem) = Some ''select'' \<longrightarrow>
          (\<exists>t. selectItem event this = Inr t
             \<and> (\<forall>p. case li_at p this of
                       None \<Rightarrow> li_at p t = None
                     | Some l \<Rightarrow>
                         if dom_parent event = Some p
                         then \<exists>cs. li_at p t
                                = Some (l\<lparr>icon_classes := cs,
                                          title_html :=
                                            (if truthy (title (props item))
                                             then js_str (title (props item))
                                             else title_html l)\<rparr>)
                         else li_at p t = Some l)))
       \<and> (\<not> disabled (props item) \<and> \<not> loading (props item)
            \<and> (subitems item = None \<or> subitems item = Some [])
            \<and> (\<not> truthy (parentId (props item))
                \<or> items this (js_str (parentId (props item))) = Some parentItem
                   \<and> item_type (props parentItem) \<noteq> Some ''select'') \<longrightarrow>
          (\<exists>t. selectItem event this = Inr t \<and> skeletons t = skeletons this))
       \<and> (disabled (props item) \<or> loading (props item) \<longrightarrow> selectItem event this = Inr this)"
proof (intro conjI impI)
  assume a: "\<not> disabled (props item) \<and> \<not> loading (props item)
      \<and> (subitems item = None \<or> subitems item = Some [])
      \<and> truthy (parentId (props item))
      \<and> items this (js_str (parentId (props item))) = Some parentItem
      \<and> item_type (props parentItem) = Some ''select''"
  define finish where "finish = (\<lambda>t. case callback (props item) of
         Some cb \<Rightarrow> t\<lparr>trace := trace t @ [Invoke cb]\<rparr>
       | None \<Rightarrow> emitEvent ''item.select'' (Some item) t)"
  define t where "t = finish (changeMainListItem (dom_parent event) item this)"
  have fin: "skeletons (finish s) = skeletons s" for s
    by (simp add: finish_def emitEvent_def split: option.splits)
  have run: "selectItem event this = Inr t"
    using assms a
    by (auto simp: selectItem_def triggerSelectEvent_def Let_def truthy_def finish_def t_def)
  have at: "li_at p t = li_at p (changeMainListItem (dom_parent event) item this)" for p
    unfolding t_def by (rule li_at_skeletons) (rule fin)
  have spans: "\<exists>cs. change_spans item l
      = l\<lparr>icon_classes := cs,
           title_html := (if truthy (title (props item)) then js_str (title (props item))
                          else title_html l)\<rparr>" for l
    by (rule exI [of _ "icon_classes (change_spans item l)"])
      (simp add: change_spans_def Let_def)
  have "case li_at p this of
          None \<Rightarrow> li_at p t = None
        | Some l \<Rightarrow>
            if dom_parent event = Some p
            then \<exists>cs. li_at p t
                   = Some (l\<lparr>icon_classes := cs,
                             title_html :=
                               (if truthy (title (props item))
                                then js_str (title (props item))
                                else title_html l)\<rparr>)
            else li_at p t = Some l" for p
  proof (cases "li_at p this")
    case None
    then show ?thesis
      by (cases "dom_parent event") (auto simp: at changeMainListItem_def li_at_on_li_at)
  next
    case (Some l)
    show ?thesis
    proof (cases "dom_parent event = Some p")
      case True
      with Some spans [of l] show ?thesis
        by (simp add: at changeMainListItem_def li_at_on_li_at)
    next
      case False
      with Some show ?thesis
        by (cases "dom_parent event") (auto simp: at changeMainListItem_def li_at_on_li_at)
    qed
  qed
  with run show "\<exists>t. selectItem event this = Inr t
             \<and> (\<forall>p. case li_at p this of
                       None \<Rightarrow> li_at p t = None
                     | Some l \<Rightarrow>
                         if dom_parent event = Some p
                         then \<exists>cs. li_at p t
                                = Some (l\<lparr>icon_classes := cs,
                                          title_html :=
                                            (if truthy (title (props item))
                                             then js_str (title (props item))
                                             else title_html l)\<rparr>)
                         else li_at p t = Some l)"
    by (intro exI [of _ t] conjI allI)
next
  assume "\<not> disabled (props item) \<and> \<not> loading (props item)
      \<and> (subitems item = None \<or> subitems item = Some [])
      \<and> (\<not> truthy (parentId (props item))
          \<or> items this (js_str (parentId (props item))) = Some parentItem
             \<and> item_type (props parentItem) \<noteq> Some ''select'')"
  then show "\<exists>t. selectItem event this = Inr t \<and> skeletons t = skeletons this"
    using assms
    by (auto simp: selectItem_def triggerSelectEvent_def Let_def emitEvent_def
        split: option.splits)
next
  assume "disabled (props item) \<or> loading (props item)"
  then show "selectItem event this = Inr this"
    using assms by (auto simp: selectItem_def)
qed

theorem select_changes_main_item_witness:
  "\<exists>t. selectItem \<lparr>target_id = ''uuu'', dom_parent = Some (0, False, 1)\<rparr> sample_toolbar = Inr t
     \<and> map_option title_html (li_at (0, False, 1) sample_toolbar) = Some ''Language''
     \<and> map_option title_html (li_at (0, False, 1) t) = Some ''Deutsch''
     \<and> li_at (0, False, 0) t = li_at (0, False, 0) sample_toolbar
     \<and> li_at (0, True, 0) t = li_at (0, True, 0) sample_toolbar"
proof -
  let ?ev = "\<lparr>target_id = ''uuu'', dom_parent = Some (0, False, 1)\<rparr>"
  have stored: "items sample_toolbar (target_id ?ev) = Some stored_deutsch"
    by code_simp
  have pre: "\<not> disabled (props stored_deutsch) \<and> \<not> loading (props stored_deutsch)
      \<and> (subitems stored_deutsch = None \<or> subitems stored_deutsch = Some [])
      \<and> truthy (parentId (props stored_deutsch))
      \<and> items sample_toolbar (js_str (parentId (props stored_deutsch))) = Some stored_lang
      \<and> item_type (props stored_lang) = Some ''select''"
    by code_simp
  have vals: "truthy (title (props stored_deutsch))"
    "js_str (title (props stored_deutsch)) = ''Deutsch''"
    by code_simp+
  have before: "map_option title_html (li_at (0, False, 1) sample_toolbar) = Some ''Language''"
    "li_at (0, False, 0) sample_toolbar \<noteq> None" "li_at (0, True, 0) sample_toolbar \<noteq> None"
    by code_simp+
  from before obtain l a b where l: "li_at (0, False, 1) sample_toolbar = Some l"
    "li_at (0, False, 0) sample_toolbar = Some a" "li_at (0, True, 0) sample_toolbar = Some b"
    by auto
  from select_changes_main_item [OF stored, THEN conjunct1, rule_format, OF pre]
  obtain t where t: "selectItem ?ev sample_toolbar = Inr t"
    "\<forall>p. case li_at p sample_toolbar of
            None \<Rightarrow> li_at p t = None
          | Some l \<Rightarrow>
              if dom_parent ?ev = Some p
              then \<exists>cs. li_at p t
                     = Some (l\<lparr>icon_classes := cs,
                               title_html :=
                                 (if truthy (title (props stored_deutsch))
                                  then js_str (title (props stored_deutsch))
                                  else title_html l)\<rparr>)
              else li_at p t = Some l"
    by blast
  from t(2) [rule_format, of "(0, False, 1)"] l(1) vals
  have one: "map_option title_html (li_at (0, False, 1) t) = Some ''Deutsch''"
    by auto
  from t(2) [rule_format, of "(0, False, 0)"] l(2)
  have two: "li_at (0, False, 0) t = li_at (0, False, 0) sample_toolbar"
    by simp
  from t(2) [rule_format, of "(0, True, 0)"] l(3)
  have three: "li_at (0, True, 0) t = li_at (0, True, 0) sample_toolbar"
    by simp
  from t(1) before(1) one two three show ?thesis
    by (intro exI [of _ t] conjI)
qed

text \<open>
  C7 as stated fails. The disabled entry \<^verbatim>\<open>Italiano\<close> is a child of the dropdown of type
  \<^verbatim>\<open>select\<close>, whose entry is the second of the left list, and a click on it leaves the
  whole state as it is, the parent's title \<^verbatim>\<open>Language\<close> included.
\<close>

theorem select_child_counterexample:
  "items sample_toolbar ''lang'' = Some stored_lang
   \<and> item_type (props stored_lang) = Some ''select''
   \<and> items sample_toolbar ''uuuu'' = Some stored_italiano
   \<and> parentId (props stored_italiano) = Some ''lang''
   \<and> title (props stored_italiano) = Some ''Italiano''
   \<and> map_option data_id (li_at (0, False, 1) sample_toolbar) = Some ''lang''
   \<and> map_option title_html (li_at (0, False, 1) sample_toolbar) = Some ''Language''
   \<and> selectItem \<lparr>target_id = ''uuuu'', dom_parent = Some (0, False, 1)\<rparr> sample_toolbar
       = Inr sample_toolbar"
proof -
  have stored: "items sample_toolbar ''uuuu'' = Some stored_italiano"
    by code_simp
  have "disabled (props stored_italiano)"
    by code_simp
  then have italiano:
    "selectItem \<lparr>target_id = ''uuuu'', dom_parent = Some (0, False, 1)\<rparr> sample_toolbar
       = Inr sample_toolbar"
    using stored by (simp add: selectItem_def)
  have "items sample_toolbar ''lang'' = Some stored_lang
     \<and> item_type (props stored_lang) = Some ''select''
     \<and> parentId (props stored_italiano) = Some ''lang''
     \<and> title (props stored_italiano) = Some ''Italiano''
     \<and> map_option data_id (li_at (0, False, 1) sample_toolbar) = Some ''lang''
     \<and> map_option title_html (li_at (0, False, 1) sample_toolbar) = Some ''Language''"
    by code_simp
  with stored italiano show ?thesis by simp
qed

subsection \<open>C8: a failed fetch\<close>

text \<open>
  C8: with a url in the options, \<^verbatim>\<open>initialize\<close> returns without rendering, and the
  callback of the failed fetch only logs: the items, the lists of entries and the id
  counter are those the component had before, and the one thing added to what it has done
  is the log entry; in particular no \<^verbatim>\<open>initialized\<close> event is emitted.
\<close>

theorem failed_fetch_is_logged:
  assumes "truthy (u_url u)"
  shows "\<exists>t0 t1. initialize gen u this = Some (Inr t0)
           \<and> load_settled gen (Failed e) t0 = Some (Inr t1)
           \<and> t1 = t0\<lparr>trace := trace t0 @ [Log ''data could not be loaded:'' (Some e)]\<rparr>
           \<and> items t1 = items this \<and> left_ul t1 = left_ul this \<and> right_ul t1 = right_ul this
           \<and> uid t1 = uid this
           \<and> trace t1 = trace this @ [Log ''data could not be loaded:'' (Some e)]"
  using assms
  by (simp add: initialize_def load_settled_def tb_extend_def Let_def left_ul_def right_ul_def)

theorem failed_fetch_is_logged_witness:
  "\<exists>t0 t1. initialize uid_seq url_options blank_toolbar = Some (Inr t0)
      \<and> load_settled uid_seq (Failed ''404'') t0 = Some (Inr t1)
      \<and> left_ul t1 = [] \<and> right_ul t1 = []
      \<and> trace t1 = [Log ''data could not be loaded:'' (Some ''404'')]"
proof -
  have url: "truthy (u_url url_options)"
    by code_simp
  have blank: "left_ul blank_toolbar = []" "right_ul blank_toolbar = []" "trace blank_toolbar = []"
    by code_simp+
  from failed_fetch_is_logged [OF url, of uid_seq blank_toolbar "''404''"]
  obtain t0 t1 where "initialize uid_seq url_options blank_toolbar = Some (Inr t0)"
    and "load_settled uid_seq (Failed ''404'') t0 = Some (Inr t1)"
    and "left_ul t1 = left_ul blank_toolbar" and "right_ul t1 = right_ul blank_toolbar"
    and "trace t1 = trace blank_toolbar @ [Log ''data could not be loaded:'' (Some ''404'')]"
    by blast
  then show ?thesis
    unfolding blank by (intro exI [of _ t0] exI [of _ t1]) simp
qed

subsection \<open>C5: event names\<close>

text \<open>
  C5, as the code has it. An event name of an edit-toolbar is \<^verbatim>\<open>husky.edit-toolbar.\<close>, then
  the instance name and a dot (nothing when the instance name is empty), then the
  postfix; two toolbars with different instance names never build the same name, be it
  from one postfix or from two of the postfixes the component uses. An event name of an
  auto-complete is \<^verbatim>\<open>husky.auto-complete.\<close> and the postfix, whatever the instance.
\<close>

theorem event_names_per_instance:
  "(instanceName (options a) \<noteq> [] \<longrightarrow>
      createEventName a p = ''husky.edit-toolbar.'' @ instanceName (options a) @ ''.'' @ p)
   \<and> (instanceName (options a) = [] \<longrightarrow> createEventName a p = ''husky.edit-toolbar.'' @ p)
   \<and> (instanceName (options a) \<noteq> instanceName (options b) \<longrightarrow>
        createEventName a p \<noteq> createEventName b p)
   \<and> (instanceName (options a) \<noteq> instanceName (options b)
        \<and> p \<in> set tb_postfixes \<and> q \<in> set tb_postfixes \<longrightarrow>
        createEventName a p \<noteq> createEventName b q)
   \<and> getEvent c s = ''husky.auto-complete.'' @ s"
proof -
  define ns :: "toolbar \<Rightarrow> string" where "ns = (\<lambda>t. if instanceName (options t) \<noteq> [] then instanceName (options t) @ ''.'' else [])"
  have name: "createEventName t r = ''husky.edit-toolbar.'' @ ns t @ r" for t r
    by (simp add: createEventName_def ns_def)
  have ns_inj: "instanceName (options a) = instanceName (options b)" if "ns a = ns b"
    using that by (auto simp: ns_def split: if_splits)
  have same: "createEventName a p \<noteq> createEventName b p"
    if "instanceName (options a) \<noteq> instanceName (options b)"
    using that ns_inj by (auto simp: name)
  have apart: "x @ p \<noteq> y @ q"
    if "p \<in> set tb_postfixes" "q \<in> set tb_postfixes" "p \<noteq> q" for x y :: string
  proof
    assume "x @ p = y @ q"
    then have "rev p @ rev x = rev q @ rev y"
      by (metis rev_append)
    with that show False
      by (auto simp: tb_postfixes_def)
  qed
  have cross: "createEventName a p \<noteq> createEventName b q"
    if "instanceName (options a) \<noteq> instanceName (options b)"
      "p \<in> set tb_postfixes" "q \<in> set tb_postfixes"
  proof (cases "p = q")
    case True
    then show ?thesis using same that(1) by simp
  next
    case False
    then show ?thesis using apart [OF that(2,3)] by (simp add: name)
  qed
  show ?thesis
    using same cross by (auto simp: createEventName_def getEvent_def)
qed

theorem event_names_per_instance_witness:
  "createEventName sample_toolbar ''item.enable'' = ''husky.edit-toolbar.main.item.enable''
   \<and> createEventName blank_toolbar ''item.enable'' = ''husky.edit-toolbar.item.enable''
   \<and> createEventName sample_toolbar ''item.enable'' \<noteq> createEventName blank_toolbar ''item.enable''
   \<and> createEventName sample_toolbar ''item.enable'' \<noteq> createEventName blank_toolbar ''item.select''"
proof -
  have names: "instanceName (options sample_toolbar) = ''main''"
    "instanceName (options blank_toolbar) = []"
    by code_simp+
  have differ: "instanceName (options sample_toolbar) \<noteq> []"
    "instanceName (options sample_toolbar) \<noteq> instanceName (options blank_toolbar)"
    by (simp_all add: names)
  have post: "''item.enable'' \<in> set tb_postfixes" "''item.select'' \<in> set tb_postfixes"
    by code_simp+
  note sample = event_names_per_instance [where a = sample_toolbar and b = blank_toolbar
      and p = "''item.enable''" and q = "''item.select''"]
  note blank = event_names_per_instance [where a = blank_toolbar and p = "''item.enable''"]
  have "createEventName sample_toolbar ''item.enable''
          = ''husky.edit-toolbar.'' @ instanceName (options sample_toolbar) @ ''.'' @ ''item.enable''"
    using sample differ(1) by blast
  then have "createEventName sample_toolbar ''item.enable'' = ''husky.edit-toolbar.main.item.enable''"
    by (simp add: names)
  moreover have "createEventName blank_toolbar ''item.enable''
          = ''husky.edit-toolbar.'' @ ''item.enable''"
    using blank names(2) by blast
  then have "createEventName blank_toolbar ''item.enable'' = ''husky.edit-toolbar.item.enable''"
    by simp
  moreover have "createEventName sample_toolbar ''item.enable''
          \<noteq> createEventName blank_toolbar ''item.enable''"
    using sample differ(2) by blast
  moreover have "createEventName sample_toolbar ''item.enable''
          \<noteq> createEventName blank_toolbar ''item.select''"
    using sample differ(2) post by blast
  ultimately show ?thesis
    by blast
qed

text \<open>
  C5 as stated fails for the auto-complete: two instances with different instance names
  build, and emit, the same event name.
\<close>

theorem autocomplete_events_shared:
  "opt_instanceName (ac_opts first_ac) = ''first''
   \<and> opt_instanceName (ac_opts second_ac) = ''second''
   \<and> getEvent first_ac ''select'' = ''husky.auto-complete.select''
   \<and> getEvent second_ac ''select'' = ''husky.auto-complete.select''
   \<and> ac_emitted (on_selected \<lparr>datum_id = ''7'', datum_name = ''seven''\<rparr> first_ac)
       = ac_emitted (on_selected \<lparr>datum_id = ''7'', datum_name = ''seven''\<rparr> second_ac)"
  by code_simp

end
